theory Spec2Isabelle
  imports Main "HOL-Library.AList" "HOL-Library.Char_ord" "HOL-Library.List_Lexorder"
begin

section \<open>Leads\<close>

text \<open>
  A lead is a Python dict from field names to strings (every producer in
  \<^verbatim>\<open>utils/pubmed_api.py\<close> and \<^verbatim>\<open>stages/stage2_enrichment.py\<close> stores strings).
  Strings are lists of characters with code points below 256.
  \<^verbatim>\<open>lead.get(k, '')\<close> is \<open>get_str\<close>.
\<close>

type_synonym lead = "string \<rightharpoonup> string"

definition get_str :: "lead \<Rightarrow> string \<Rightarrow> string" where
  "get_str l k = (case l k of None \<Rightarrow> [] | Some v \<Rightarrow> v)"

section \<open>Rank assigner (stages/stage3\_ranking.py)\<close>

text \<open>
  After scoring, stage 3 stores the integer \<^verbatim>\<open>propensity_score\<close> in the lead and
  \<^verbatim>\<open>_assign_ranks\<close> adds the integer \<^verbatim>\<open>rank\<close>. Both are optional keys of the dict;
  the textual fields ride along unchanged.
\<close>

record ranked_lead =
  text_fields :: lead
  propensity_score :: "int option"
  rank :: "int option"

text \<open>\<^verbatim>\<open>lead.get('propensity_score', 0)\<close>\<close>

definition score_of :: "ranked_lead \<Rightarrow> int" where
  "score_of l = (case propensity_score l of None \<Rightarrow> 0 | Some s \<Rightarrow> s)"

text \<open>
  The body of the \<^verbatim>\<open>for lead in ranked_results\<close> loop, with the three loop
  variables \<^verbatim>\<open>current_rank\<close>, \<^verbatim>\<open>current_score\<close> and \<^verbatim>\<open>rank_count\<close> passed along.
\<close>

fun assign_loop :: "int \<Rightarrow> int option \<Rightarrow> int \<Rightarrow> ranked_lead list \<Rightarrow> ranked_lead list" where
  "assign_loop current_rank current_score rank_count [] = []"
| "assign_loop current_rank current_score rank_count (l # ls) =
     (let score = score_of l in
      if current_score = None \<or> Some score \<noteq> current_score then
        (let current_rank' =
               (if current_score \<noteq> None then current_rank + rank_count else current_rank)
         in l\<lparr>rank := Some current_rank'\<rparr> # assign_loop current_rank' (Some score) 1 ls)
      else
        l\<lparr>rank := Some current_rank\<rparr> # assign_loop current_rank current_score (rank_count + 1) ls)"

definition assign_ranks :: "ranked_lead list \<Rightarrow> ranked_lead list" where
  "assign_ranks ranked_results =
     (if ranked_results = [] then [] else assign_loop 1 None 0 ranked_results)"

text \<open>The number of leads of a batch whose score is strictly higher than \<open>s\<close>.\<close>

definition higher_count :: "int \<Rightarrow> ranked_lead list \<Rightarrow> int" where
  "higher_count s ls = int (length (filter (\<lambda>x. s < score_of x) ls))"

definition sorted_desc :: "ranked_lead list \<Rightarrow> bool" where
  "sorted_desc ls = sorted_wrt (\<lambda>a b. score_of b \<le> score_of a) ls"

definition with_score :: "int \<Rightarrow> ranked_lead" where
  "with_score s = \<lparr>text_fields = Map.empty, propensity_score = Some s, rank = None\<rparr>"

section \<open>Python string operations\<close>

text \<open>
  \<^verbatim>\<open>str.lower()\<close> on code points below 256: the ASCII capitals and the Latin-1
  capitals (192 to 222 without the multiplication sign 215) move up by 32.
\<close>

definition lower_char :: "char \<Rightarrow> char" where
  "lower_char c =
     (let n = (of_char c :: nat) in
      if (65 \<le> n \<and> n \<le> 90) \<or> (192 \<le> n \<and> n \<le> 222 \<and> n \<noteq> 215)
      then char_of (n + 32) else c)"

definition lower :: "string \<Rightarrow> string" where
  "lower s = map lower_char s"

text \<open>
  The characters that \<^verbatim>\<open>str.isspace()\<close>, \<^verbatim>\<open>str.strip()\<close> and the regular
  expression class \<^verbatim>\<open>\s\<close> treat as whitespace, below 256.
\<close>

definition is_space :: "char \<Rightarrow> bool" where
  "is_space c =
     (let n = (of_char c :: nat) in
      (9 \<le> n \<and> n \<le> 13) \<or> (28 \<le> n \<and> n \<le> 32) \<or> n = 133 \<or> n = 160)"

definition strip :: "string \<Rightarrow> string" where
  "strip s = rev (dropWhile is_space (rev (dropWhile is_space s)))"

definition is_digit :: "char \<Rightarrow> bool" where
  "is_digit c = (let n = (of_char c :: nat) in 48 \<le> n \<and> n \<le> 57)"

definition digit_val :: "char \<Rightarrow> nat" where
  "digit_val c = of_char c - 48"

text \<open>\<^verbatim>\<open>s.startswith(p)\<close> and \<^verbatim>\<open>k in s\<close> for strings.\<close>

fun starts_with :: "string \<Rightarrow> string \<Rightarrow> bool" where
  "starts_with s [] = True"
| "starts_with [] (p # ps) = False"
| "starts_with (c # cs) (p # ps) = (c = p \<and> starts_with cs ps)"

fun contains :: "string \<Rightarrow> string \<Rightarrow> bool" where
  "contains [] k = (k = [])"
| "contains (c # cs) k = (starts_with (c # cs) k \<or> contains cs k)"

text \<open>\<^verbatim>\<open>any(keyword in text for keyword in keywords)\<close>\<close>

definition any_keyword_in :: "string list \<Rightarrow> string \<Rightarrow> bool" where
  "any_keyword_in keywords text = list_ex (\<lambda>keyword. contains text keyword) keywords"

text \<open>
  \<^verbatim>\<open>int(s)\<close> on a string: surrounding whitespace is dropped, one sign is allowed,
  then decimal digits follow, where single underscores may separate digits.
  \<open>None\<close> stands for the \<^verbatim>\<open>ValueError\<close>. The whitespace that \<^verbatim>\<open>int\<close> drops is
  narrower than that of \<^verbatim>\<open>str.strip()\<close>: the separators 28 to 31 are not part of it
  (\<^verbatim>\<open>int('\x1c202')\<close> raises).
\<close>

definition is_int_space :: "char \<Rightarrow> bool" where
  "is_int_space c =
     (let n = (of_char c :: nat) in
      (9 \<le> n \<and> n \<le> 13) \<or> n = 32 \<or> n = 133 \<or> n = 160)"

definition int_strip :: "string \<Rightarrow> string" where
  "int_strip s = rev (dropWhile is_int_space (rev (dropWhile is_int_space s)))"

fun digit_run :: "nat \<Rightarrow> string \<Rightarrow> nat option" where
  "digit_run acc [] = Some acc"
| "digit_run acc (c # cs) =
     (if is_digit c then digit_run (10 * acc + digit_val c) cs
      else if c = CHR ''_'' \<and> cs \<noteq> [] \<and> is_digit (hd cs) then digit_run acc cs
      else None)"

definition unsigned_int :: "string \<Rightarrow> nat option" where
  "unsigned_int s = (if s = [] then None else if is_digit (hd s) then digit_run 0 s else None)"

definition py_int :: "string \<Rightarrow> int option" where
  "py_int s =
     (case int_strip s of
        [] \<Rightarrow> None
      | c # cs \<Rightarrow>
          if c = CHR ''-'' then map_option (\<lambda>n. - int n) (unsigned_int cs)
          else if c = CHR ''+'' then map_option int (unsigned_int cs)
          else map_option int (unsigned_int (c # cs)))"

section \<open>Weighted scorer (utils/scoring.py)\<close>

text \<open>\<^verbatim>\<open>if lead.get(k):\<close> holds when the field is present and not empty.\<close>

definition truthy :: "lead \<Rightarrow> string \<Rightarrow> bool" where
  "truthy l k = (get_str l k \<noteq> [])"

definition role_keywords :: "string list" where
  "role_keywords =
     [''toxicology'', ''safety'', ''hepatic'', ''3d'', ''preclinical'',
      ''pre-clinical'', ''drug safety'', ''safety assessment'',
      ''preclinical safety'', ''toxicologist'', ''safety scientist'']"

definition calculate_role_fit_score :: "lead \<Rightarrow> int" where
  "calculate_role_fit_score l =
     (let title = (if truthy l ''linkedin_title'' then get_str l ''linkedin_title''
                   else if truthy l ''title'' then get_str l ''title''
                   else [])
      in if title = [] then 0
         else if any_keyword_in role_keywords (lower title) then 30
         else 0)"

definition scientific_keywords :: "string list" where
  "scientific_keywords =
     [''dili'', ''drug-induced liver injury'', ''liver toxicity'',
      ''hepatic'', ''liver injury'', ''drug-induced'',
      ''hepatotoxicity'', ''liver damage'']"

text \<open>
  The block \<^verbatim>\<open>if pub_date: try: ... except (ValueError, TypeError): return 40\<close> of
  \<^verbatim>\<open>_calculate_scientific_intent_score\<close>. The result is \<open>Some v\<close> when the block
  returns \<open>v\<close> and \<open>None\<close> when control leaves the block without a \<^verbatim>\<open>return\<close>;
  \<open>current_year\<close> is \<^verbatim>\<open>datetime.now().year\<close>.
\<close>

definition recency_block :: "int \<Rightarrow> string \<Rightarrow> int option" where
  "recency_block current_year pub_date =
     (if pub_date \<noteq> [] then
        (if length pub_date \<ge> 4 then
           (case py_int (take 4 pub_date) of
              None \<Rightarrow> Some 40
            | Some year \<Rightarrow> (if current_year - year \<le> 2 then Some 40 else None))
         else None)
      else None)"

definition calculate_scientific_intent_score :: "int \<Rightarrow> lead \<Rightarrow> int" where
  "calculate_scientific_intent_score current_year l =
     (let pub_title = get_str l ''publication_title'';
          pub_date = get_str l ''publication_date''
      in if pub_title = [] then 0
         else if \<not> any_keyword_in scientific_keywords (lower pub_title) then 0
         else (case recency_block current_year pub_date of
                 Some v \<Rightarrow> v
               | None \<Rightarrow> 40))"

definition calculate_company_intent_score :: "lead \<Rightarrow> int" where
  "calculate_company_intent_score l =
     (let funding_stage = get_str l ''company_funding_stage'' in
      if funding_stage = [] then 0
      else (let funding_stage_lower = lower funding_stage in
            if contains funding_stage_lower ''series a'' \<or> contains funding_stage_lower ''series b''
            then 20
            else if contains funding_stage_lower ''series c'' \<or> contains funding_stage_lower ''ipo''
            then 15
            else 0))"

definition tech_keywords :: "string list" where
  "tech_keywords =
     [''3d'', ''in-vitro'', ''in vitro'', ''organ-on-chip'', ''organ on chip'',
      ''spheroid'', ''cell culture'', ''nam'', ''new approach methodology'',
      ''organoid'', ''microphysiological'', ''mps'']"

definition calculate_technographic_score :: "lead \<Rightarrow> int" where
  "calculate_technographic_score l =
     (let industry = lower (get_str l ''company_industry'');
          pub_title = lower (get_str l ''publication_title'')
      in if list_ex (\<lambda>keyword. contains industry keyword \<or> contains pub_title keyword) tech_keywords
         then 15 else 0)"

definition hubs :: "(string \<times> string list) list" where
  "hubs =
     [(''boston/cambridge'', [''boston'', ''cambridge'', ''cambridge, ma'', ''boston, ma'']),
      (''bay area'',
         [''san francisco'', ''palo alto'', ''south san francisco'',
          ''fremont'', ''bay area'', ''menlo park'', ''san jose'',
          ''mountain view'', ''redwood city'']),
      (''basel'', [''basel'', ''switzerland'']),
      (''uk golden triangle'',
         [''london'', ''oxford'', ''cambridge'', ''cambridgeshire'',
          ''london, uk'', ''oxford, uk'', ''cambridge, uk''])]"

text \<open>The loop \<^verbatim>\<open>for hub_name, cities in hubs.items()\<close>, ending in \<^verbatim>\<open>return 0\<close>.\<close>

fun hub_loop :: "string \<Rightarrow> (string \<times> string list) list \<Rightarrow> int" where
  "hub_loop location_lower [] = 0"
| "hub_loop location_lower ((hub_name, cities) # rest) =
     (if any_keyword_in cities location_lower then 10 else hub_loop location_lower rest)"

definition calculate_location_score :: "lead \<Rightarrow> int" where
  "calculate_location_score l =
     (let location = (if truthy l ''person_location'' then get_str l ''person_location''
                      else if truthy l ''company_hq'' then get_str l ''company_hq''
                      else [])
      in if location = [] then 0 else hub_loop (lower location) hubs)"

record breakdown =
  role_fit :: int
  scientific_intent :: int
  company_intent :: int
  technographic :: int
  location :: int

text \<open>\<^verbatim>\<open>sum(score_breakdown.values())\<close>\<close>

definition breakdown_sum :: "breakdown \<Rightarrow> int" where
  "breakdown_sum b = role_fit b + scientific_intent b + company_intent b + technographic b + location b"

record score_data =
  sd_propensity_score :: int
  sd_score_breakdown :: breakdown
  sd_priority_level :: string

definition calculate_propensity_score :: "int \<Rightarrow> lead \<Rightarrow> score_data" where
  "calculate_propensity_score current_year l =
     (let score_breakdown =
            \<lparr>role_fit = calculate_role_fit_score l,
             scientific_intent = calculate_scientific_intent_score current_year l,
             company_intent = calculate_company_intent_score l,
             technographic = calculate_technographic_score l,
             location = calculate_location_score l\<rparr>;
          total_score = breakdown_sum score_breakdown;
          propensity_score = min total_score 100;
          priority_level = (if propensity_score \<ge> 80 then ''High''
                            else if propensity_score \<ge> 50 then ''Medium''
                            else ''Low'')
      in \<lparr>sd_propensity_score = propensity_score,
          sd_score_breakdown = score_breakdown,
          sd_priority_level = priority_level\<rparr>)"

text \<open>Leads used as concrete inputs.\<close>

definition old_hepatic_lead :: lead where
  "old_hepatic_lead =
     [''publication_title'' \<mapsto> ''Hepatic clearance in rats'', ''publication_date'' \<mapsto> ''2000-05'']"

definition spec_example_lead :: lead where
  "spec_example_lead =
     [''title'' \<mapsto> ''Director of Toxicology'',
      ''publication_title'' \<mapsto> ''Drug-Induced Liver Injury in 3D hepatic spheroids'',
      ''publication_date'' \<mapsto> ''2024'',
      ''company_funding_stage'' \<mapsto> ''Series B'',
      ''company_industry'' \<mapsto> ''organ-on-chip'',
      ''person_location'' \<mapsto> ''Boston, MA'']"

section \<open>Fuzzy deduplicator (utils/data\_processing.py)\<close>

text \<open>\<^verbatim>\<open>sep.join(parts)\<close>\<close>

fun join :: "string \<Rightarrow> string list \<Rightarrow> string" where
  "join sep [] = []"
| "join sep [p] = p"
| "join sep (p # q # ps) = p @ sep @ join sep (q # ps)"

text \<open>
  The block that merges \<^verbatim>\<open>publication_title\<close> and, with the same shape,
  \<^verbatim>\<open>publication_journal\<close>: both values present and different are collected in a
  list and joined; an empty first value is replaced by the second.
\<close>

definition merge_listed :: "string \<Rightarrow> lead \<Rightarrow> lead \<Rightarrow> lead" where
  "merge_listed k merged lead2 =
     (let pub1 = get_str merged k; pub2 = get_str lead2 k in
      if pub1 \<noteq> [] \<and> pub2 \<noteq> [] \<and> pub1 \<noteq> pub2 then
        (let publications = [pub1];
             publications = (if pub2 \<notin> set publications then publications @ [pub2]
                             else publications)
         in merged(k \<mapsto> join ''; '' publications))
      else if pub1 = [] \<and> pub2 \<noteq> [] then merged(k \<mapsto> pub2)
      else merged)"

definition merge_email :: "lead \<Rightarrow> lead \<Rightarrow> lead" where
  "merge_email merged lead2 =
     (let email1 = get_str merged ''email''; email2 = get_str lead2 ''email'' in
      if email1 = [] \<and> email2 \<noteq> [] then merged(''email'' \<mapsto> email2)
      else if email1 \<noteq> [] \<and> email2 \<noteq> [] \<and> email1 \<noteq> email2
      then merged(''email'' \<mapsto> email1 @ ''; '' @ email2)
      else merged)"

definition merge_location :: "lead \<Rightarrow> lead \<Rightarrow> lead" where
  "merge_location merged lead2 =
     (let location1 = get_str merged ''location''; location2 = get_str lead2 ''location'' in
      if location1 = [] \<and> location2 \<noteq> [] then merged(''location'' \<mapsto> location2)
      else merged)"

definition merge_company :: "lead \<Rightarrow> lead \<Rightarrow> lead" where
  "merge_company merged lead2 =
     (let company1 = get_str merged ''company''; company2 = get_str lead2 ''company'' in
      if company1 = ''Unknown'' \<and> company2 \<noteq> [] \<and> company2 \<noteq> ''Unknown''
      then merged(''company'' \<mapsto> company2)
      else merged)"

text \<open>The dict \<^verbatim>\<open>priority\<close> with \<^verbatim>\<open>priority.get(pos, 0)\<close>.\<close>

definition priority :: "string \<Rightarrow> int" where
  "priority pos =
     (case map_of [(''Corresponding Author'', 4), (''First Author'', 3),
                   (''Last Author'', 2), (''Co-Author'', 1)] pos of
        None \<Rightarrow> 0
      | Some p \<Rightarrow> p)"

definition merge_author_position :: "lead \<Rightarrow> lead \<Rightarrow> lead" where
  "merge_author_position merged lead2 =
     (let pos1 = get_str merged ''author_position''; pos2 = get_str lead2 ''author_position'' in
      if priority pos2 > priority pos1 then merged(''author_position'' \<mapsto> pos2)
      else merged)"

definition merge_pubmed_id :: "lead \<Rightarrow> lead \<Rightarrow> lead" where
  "merge_pubmed_id merged lead2 =
     (let pmid1 = get_str merged ''pubmed_id''; pmid2 = get_str lead2 ''pubmed_id'' in
      if pmid1 \<noteq> [] \<and> pmid2 \<noteq> [] \<and> pmid1 \<noteq> pmid2
      then merged(''pubmed_id'' \<mapsto> pmid1 @ ''; '' @ pmid2)
      else if pmid1 = [] \<and> pmid2 \<noteq> [] then merged(''pubmed_id'' \<mapsto> pmid2)
      else merged)"

text \<open>Python compares strings by code point, position by position (\<open><\<close> on \<open>string\<close>).\<close>

definition merge_publication_date :: "lead \<Rightarrow> lead \<Rightarrow> lead" where
  "merge_publication_date merged lead2 =
     (let date1 = get_str merged ''publication_date''; date2 = get_str lead2 ''publication_date'' in
      if date2 \<noteq> [] \<and> (date1 = [] \<or> date1 < date2)
      then merged(''publication_date'' \<mapsto> date2)
      else merged)"

text \<open>\<^verbatim>\<open>_merge_lead_data\<close>: the field blocks in the order of the source.\<close>

definition merge_lead_data :: "lead \<Rightarrow> lead \<Rightarrow> lead" where
  "merge_lead_data lead1 lead2 =
     (let merged = lead1;
          merged = merge_listed ''publication_title'' merged lead2;
          merged = merge_email merged lead2;
          merged = merge_location merged lead2;
          merged = merge_company merged lead2;
          merged = merge_author_position merged lead2;
          merged = merge_pubmed_id merged lead2;
          merged = merge_listed ''publication_journal'' merged lead2;
          merged = merge_publication_date merged lead2
      in merged)"








definition merge_seed_example :: lead where
  "merge_seed_example =
     [''name'' \<mapsto> ''Jane Doe'', ''email'' \<mapsto> ''a@x.com'', ''company'' \<mapsto> ''Unknown'',
      ''author_position'' \<mapsto> ''Co-Author'', ''location'' \<mapsto> ''Boston, USA'']"

definition merge_other_example :: lead where
  "merge_other_example =
     [''name'' \<mapsto> ''Jane Doe'', ''email'' \<mapsto> ''b@x.com'', ''company'' \<mapsto> ''Acme'',
      ''author_position'' \<mapsto> ''Corresponding Author'', ''location'' \<mapsto> ''Basel, Switzerland'']"

subsection \<open>The clustering in the words of the specification\<close>












section \<open>Affiliation text extractor (utils/data\_processing.py)\<close>

text \<open>
  \<^verbatim>\<open>re.sub(r'\S+@\S+', '', affiliation)\<close>. A match of \<^verbatim>\<open>\S+@\S+\<close> lies inside one
  maximal run of non-whitespace characters; such a run has a match exactly when an
  \<^verbatim>\<open>@\<close> stands strictly between its first and its last character, and the leftmost
  greedy match is then the whole run. The substitution therefore deletes these runs and
  leaves everything else, whitespace included, in place. \<open>tok\<close> is the run read so far.
\<close>

definition is_email_token :: "string \<Rightarrow> bool" where
  "is_email_token tok = (CHR ''@'' \<in> set (butlast (tl tok)))"

definition flush_token :: "string \<Rightarrow> string" where
  "flush_token tok = (if is_email_token tok then [] else tok)"

fun sub_emails :: "string \<Rightarrow> string \<Rightarrow> string" where
  "sub_emails tok [] = flush_token tok"
| "sub_emails tok (c # cs) =
     (if is_space c then flush_token tok @ c # sub_emails [] cs
      else sub_emails (tok @ [c]) cs)"

definition remove_emails :: "string \<Rightarrow> string" where
  "remove_emails s = sub_emails [] s"

text \<open>\<^verbatim>\<open>s.split(d)\<close> for a one-character separator: never an empty list.\<close>

fun split_on :: "char \<Rightarrow> string \<Rightarrow> string list" where
  "split_on d [] = [[]]"
| "split_on d (c # cs) =
     (if c = d then [] # split_on d cs
      else (case split_on d cs of
              [] \<Rightarrow> [[c]]
            | p # ps \<Rightarrow> (c # p) # ps))"

definition skip_keywords :: "string list" where
  "skip_keywords =
     [''department'', ''university'', ''college'', ''school'', ''institute'',
      ''institution'', ''center'', ''centre'', ''laboratory'', ''lab'', ''faculty'']"

text \<open>\<^verbatim>\<open>re.match(r'^\d+', part)\<close>: the part starts with a decimal digit.\<close>

definition numeric_leading :: "string \<Rightarrow> bool" where
  "numeric_leading part = (case part of [] \<Rightarrow> False | c # cs \<Rightarrow> is_digit c)"

text \<open>
  The first loop over \<open>parts\<close>: \<open>Some part\<close> when it returns \<open>part\<close>, \<open>None\<close> when it
  runs to its end. A part of exactly three characters is neither skipped nor returned.
\<close>

fun first_company :: "string list \<Rightarrow> string option" where
  "first_company [] = None"
| "first_company (part # parts) =
     (let part_lower = lower part in
      if any_keyword_in skip_keywords part_lower then first_company parts
      else if numeric_leading part \<or> length part < 3 then first_company parts
      else if length part > 3 then Some part
      else first_company parts)"

text \<open>The second loop over \<open>parts\<close>.\<close>

fun first_substantial :: "string list \<Rightarrow> string option" where
  "first_substantial [] = None"
| "first_substantial (part # parts) =
     (if length part > 5 then Some part else first_substantial parts)"

definition extract_company_from_affiliation :: "string \<Rightarrow> string" where
  "extract_company_from_affiliation affiliation =
     (if affiliation = [] then ''Unknown''
      else
        (let affiliation = remove_emails affiliation;
             parts = map strip (split_on CHR '','' affiliation)
         in case first_company parts of
              Some part \<Rightarrow> part
            | None \<Rightarrow>
                (case first_substantial parts of
                   Some part \<Rightarrow> part
                 | None \<Rightarrow> ''Unknown'')))"

text \<open>
  The extraction as the specification words it: the comma segments of the text without
  emails, the segments that survive the three discards, the first survivor longer than 3,
  else the first segment longer than 5, else "Unknown".
\<close>

definition segments :: "string \<Rightarrow> string list" where
  "segments affiliation = map strip (split_on CHR '','' (remove_emails affiliation))"

definition discarded :: "string \<Rightarrow> bool" where
  "discarded seg =
     (any_keyword_in skip_keywords (lower seg) \<or> numeric_leading seg \<or> length seg < 3)"

definition surviving :: "string list \<Rightarrow> string list" where
  "surviving segs = filter (\<lambda>seg. \<not> discarded seg) segs"

definition spec_extract_company :: "string \<Rightarrow> string" where
  "spec_extract_company affiliation =
     (case find (\<lambda>seg. length seg > 3) (surviving (segments affiliation)) of
        Some seg \<Rightarrow> seg
      | None \<Rightarrow>
          (case find (\<lambda>seg. length seg > 5) (segments affiliation) of
             Some seg \<Rightarrow> seg
           | None \<Rightarrow> ''Unknown''))"

definition affiliation_example :: string where
  "affiliation_example =
     ''Department of Pharmacology, Acme Biotech Inc, 02139 Cambridge, USA. jane.doe@acme.com''"

section \<open>Expiring cache store (stages/cache\_manager.py)\<close>

text \<open>
  The store is a JSON document kept in one file. An entry is the dict
  \<^verbatim>\<open>{'timestamp': ..., 'results': ..., 'count': ...}\<close>; the code reads it with
  \<^verbatim>\<open>entry.get('timestamp', '')\<close> and \<^verbatim>\<open>entry.get('results', [])\<close>, so a missing key
  and its default are the same value here. A dict is an association list in insertion
  order with distinct keys.
\<close>

record 'r entry =
  timestamp :: string
  results :: "'r list"
  count :: nat

record metadata =
  total_queries :: "nat option"
  last_cleanup :: "string option"
  last_updated :: "string option"

text \<open>
  The document: \<open>search_queries\<close> and \<open>metadata\<close> are \<open>None\<close> when the key is absent.
  The key \<^verbatim>\<open>final_results\<close>, which no function reads or changes, is left out.
\<close>

record 'r cache =
  version :: string
  created :: string
  search_queries :: "(string \<times> 'r entry) list option"
  metadata :: "metadata option"

text \<open>
  What the cache file holds: text that \<^verbatim>\<open>json.load\<close> rejects with
  \<^verbatim>\<open>JSONDecodeError\<close>; a file that cannot be read or whose bytes are not UTF-8
  (\<^verbatim>\<open>OSError\<close>, \<^verbatim>\<open>UnicodeDecodeError\<close>: neither is a \<^verbatim>\<open>JSONDecodeError\<close>); a JSON
  value that is not an object; or a document.
\<close>

datatype 'r content = Garbled | Unreadable | NonObject | Document "'r cache"

record 'r stored_file =
  content :: "'r content"
  size_bytes :: int

datatype exn = JSONDecodeError | OSError | PermissionError | KeyError

text \<open>
  The directory of the cache: the cache file, the temporary file of \<^verbatim>\<open>save_cache\<close>, the
  files renamed aside by \<^verbatim>\<open>_backup_corrupted_cache\<close>, and how the operating system
  answers. A backup is named after the second in which it is made, so the backups are
  kept under that second, and a rename onto an existing backup replaces it (as
  \<^verbatim>\<open>os.rename\<close> does on POSIX). On a read-only directory creating and renaming files
  raises \<^verbatim>\<open>PermissionError\<close>; on a full one the temporary file is created and writing
  to it raises \<^verbatim>\<open>OSError\<close>. Apart from that a rename can be refused on its own:
  \<open>rename_fault\<close> is the exception \<^verbatim>\<open>os.rename\<close> and \<^verbatim>\<open>os.replace\<close> raise, if any.
\<close>

datatype medium = Writable | ReadOnly | DiskFull

record 'r fs =
  cache_file :: "'r stored_file option"
  temp_file :: "'r stored_file option"
  corrupted_files :: "(int \<times> 'r stored_file) list"
  medium :: medium
  rename_fault :: "exn option"

definition can_rename :: "'r fs \<Rightarrow> bool" where
  "can_rename fs = (medium fs \<noteq> ReadOnly \<and> rename_fault fs = None)"

text \<open>The second of an instant, as \<^verbatim>\<open>strftime('%Y%m%d_%H%M%S')\<close> names it.\<close>

definition second_of :: "int \<Rightarrow> int" where
  "second_of now = now div 1000000"

text \<open>
  The manager's configuration and the library functions it calls. Instants are
  microseconds on the clock of \<^verbatim>\<open>datetime.now()\<close>. \<open>fromisoformat\<close> is \<open>None\<close> where
  \<^verbatim>\<open>datetime.fromisoformat\<close> raises or yields a value that cannot be compared with
  \<^verbatim>\<open>datetime.now()\<close> (both are caught as \<^verbatim>\<open>ValueError\<close>, \<^verbatim>\<open>TypeError\<close>);
  \<open>json_size\<close> is the number of bytes \<^verbatim>\<open>json.dump\<close> writes for a document.
\<close>

record 'r env =
  expiry_days :: int
  fromisoformat :: "string \<Rightarrow> int option"
  isoformat :: "int \<Rightarrow> string"
  json_size :: "'r cache \<Rightarrow> int"

definition CACHE_EXPIRY_DAYS :: int where
  "CACHE_EXPIRY_DAYS = 30"

definition MAX_CACHE_SIZE_MB :: int where
  "MAX_CACHE_SIZE_MB = 100"

definition MAX_CACHE_ENTRIES :: nat where
  "MAX_CACHE_ENTRIES = 50"

text \<open>\<^verbatim>\<open>timedelta(days=d)\<close> in microseconds.\<close>

definition timedelta_days :: "int \<Rightarrow> int" where
  "timedelta_days d = d * 86400000000"

definition create_empty_cache :: "'r env \<Rightarrow> int \<Rightarrow> 'r cache" where
  "create_empty_cache ev now =
     \<lparr>version = ''1.0'', created = isoformat ev now, search_queries = Some [],
      metadata = Some \<lparr>total_queries = Some 0, last_cleanup = Some (isoformat ev now),
                        last_updated = None\<rparr>\<rparr>"

text \<open>
  The first loop of \<^verbatim>\<open>_cleanup_expired_entries\<close>: the keys it collects in
  \<^verbatim>\<open>expired_keys\<close>. An empty timestamp skips the test; a timestamp that does not parse
  is collected like one that is too old.
\<close>

definition entry_expired :: "'r env \<Rightarrow> int \<Rightarrow> 'r entry \<Rightarrow> bool" where
  "entry_expired ev expiry_date e =
     (let timestamp_str = timestamp e in
      if timestamp_str \<noteq> [] then
        (case fromisoformat ev timestamp_str of
           Some entry_date \<Rightarrow> entry_date < expiry_date
         | None \<Rightarrow> True)
      else False)"

definition expired_keys :: "'r env \<Rightarrow> int \<Rightarrow> (string \<times> 'r entry) list \<Rightarrow> string list" where
  "expired_keys ev now queries =
     map fst (filter (\<lambda>(key, e). entry_expired ev (now - timedelta_days (expiry_days ev)) e) queries)"

text \<open>\<^verbatim>\<open>for key in expired_keys: del cache['search_queries'][key]\<close>\<close>

definition delete_keys :: "string list \<Rightarrow> (string \<times> 'r entry) list \<Rightarrow> (string \<times> 'r entry) list" where
  "delete_keys keys queries = foldl (\<lambda>qs key. AList.delete key qs) queries keys"

text \<open>
  Assignments to \<^verbatim>\<open>cache['metadata'][...]\<close>: a \<^verbatim>\<open>KeyError\<close> when the document has no
  \<^verbatim>\<open>metadata\<close>.
\<close>

definition with_metadata :: "(metadata \<Rightarrow> metadata) \<Rightarrow> 'r cache \<Rightarrow> exn + 'r cache" where
  "with_metadata f c =
     (case metadata c of
        None \<Rightarrow> Inl KeyError
      | Some m \<Rightarrow> Inr (c\<lparr>metadata := Some (f m)\<rparr>))"

definition queries_len :: "'r cache \<Rightarrow> nat" where
  "queries_len c = (case search_queries c of None \<Rightarrow> 0 | Some qs \<Rightarrow> length qs)"

definition cleanup_expired_entries :: "'r env \<Rightarrow> int \<Rightarrow> 'r cache \<Rightarrow> exn + 'r cache" where
  "cleanup_expired_entries ev now c =
     (case search_queries c of
        None \<Rightarrow> Inr c
      | Some queries \<Rightarrow>
          (let expired = expired_keys ev now queries;
               c = c\<lparr>search_queries := Some (delete_keys expired queries)\<rparr>
           in if expired \<noteq> [] then
                with_metadata
                  (\<lambda>m. m\<lparr>last_cleanup := Some (isoformat ev now),
                          total_queries := Some (queries_len c)\<rparr>) c
              else Inr c))"

text \<open>
  \<^verbatim>\<open>sorted(queries.items(), key=lambda x: x[1].get('timestamp', ''), reverse=True)\<close>:
  Python compares the timestamp strings by code point and keeps entries with equal keys
  in their original order, also when \<^verbatim>\<open>reverse\<close> is set.
\<close>

definition sorted_newest_first :: "(string \<times> 'r entry) list \<Rightarrow> (string \<times> 'r entry) list" where
  "sorted_newest_first items = rev (sort_key (\<lambda>x. timestamp (snd x)) (rev items))"

text \<open>
  \<^verbatim>\<open>_remove_oldest_entries\<close> changes the dict it is given. The first component is the
  dict afterwards; the second is the exception, if one was raised on the way (the
  \<^verbatim>\<open>search_queries\<close> are already replaced when the \<^verbatim>\<open>metadata\<close> are missing).
\<close>

definition remove_oldest_entries ::
  "'r env \<Rightarrow> int \<Rightarrow> nat \<Rightarrow> 'r cache \<Rightarrow> 'r cache \<times> exn option" where
  "remove_oldest_entries ev now keep_count c =
     (case search_queries c of
        None \<Rightarrow> (c, None)
      | Some queries \<Rightarrow>
          (let sorted_entries = sorted_newest_first queries;
               c = c\<lparr>search_queries := Some (take keep_count sorted_entries)\<rparr>
           in case with_metadata
                     (\<lambda>m. m\<lparr>total_queries := Some (queries_len c),
                             last_cleanup := Some (isoformat ev now)\<rparr>) c of
                Inl e \<Rightarrow> (c, Some e)
              | Inr c' \<Rightarrow> (c', None)))"

text \<open>
  \<^verbatim>\<open>_enforce_size_limits\<close>. The size test runs inside \<^verbatim>\<open>try ... except Exception: pass\<close>,
  so an exception there is dropped and the dict stays as it was left;
  \<^verbatim>\<open>os.path.getsize\<close> raises when the file is missing. The count test is outside the
  \<^verbatim>\<open>try\<close>. \<^verbatim>\<open>size / (1024 * 1024) > MAX_CACHE_SIZE_MB\<close> is written on the bytes.
\<close>

definition enforce_size_limits :: "'r env \<Rightarrow> int \<Rightarrow> 'r fs \<Rightarrow> 'r cache \<Rightarrow> exn + 'r cache" where
  "enforce_size_limits ev now fs c =
     (case search_queries c of
        None \<Rightarrow> Inr c
      | Some _ \<Rightarrow>
          (let c = (case cache_file fs of
                      None \<Rightarrow> c
                    | Some f \<Rightarrow>
                        if size_bytes f > MAX_CACHE_SIZE_MB * (1024 * 1024)
                        then fst (remove_oldest_entries ev now MAX_CACHE_ENTRIES c)
                        else c)
           in if queries_len c > MAX_CACHE_ENTRIES then
                (case remove_oldest_entries ev now MAX_CACHE_ENTRIES c of
                   (c', None) \<Rightarrow> Inr c'
                 | (c', Some e) \<Rightarrow> Inl e)
              else Inr c))"

text \<open>
  \<^verbatim>\<open>_backup_corrupted_cache\<close>: the rename moves the file aside under the name of the
  current second and replaces a backup of the same second; when it raises, the handler
  only logs and the file stays.
\<close>

definition backup_corrupted_cache :: "int \<Rightarrow> 'r fs \<Rightarrow> 'r fs" where
  "backup_corrupted_cache now fs =
     (case cache_file fs of
        None \<Rightarrow> fs
      | Some f \<Rightarrow>
          if can_rename fs
          then fs\<lparr>cache_file := None,
                  corrupted_files := AList.update (second_of now) f (corrupted_files fs)\<rparr>
          else fs)"

text \<open>
  The \<^verbatim>\<open>try\<close> block of \<^verbatim>\<open>load_cache\<close>, entered when the file exists: \<open>Inl\<close> is the
  exception that leaves the block.
\<close>

definition load_attempt :: "'r env \<Rightarrow> int \<Rightarrow> 'r fs \<Rightarrow> 'r stored_file \<Rightarrow> exn + 'r cache" where
  "load_attempt ev now fs f =
     (case content f of
        Unreadable \<Rightarrow> Inl OSError
      | Garbled \<Rightarrow> Inl JSONDecodeError
      | NonObject \<Rightarrow> Inr (create_empty_cache ev now)
      | Document cache_data \<Rightarrow>
          (case cleanup_expired_entries ev now cache_data of
             Inl e \<Rightarrow> Inl e
           | Inr cache_data \<Rightarrow> enforce_size_limits ev now fs cache_data))"

definition load_cache :: "'r env \<Rightarrow> int \<Rightarrow> 'r fs \<Rightarrow> 'r cache \<times> 'r fs" where
  "load_cache ev now fs =
     (case cache_file fs of
        None \<Rightarrow> (create_empty_cache ev now, fs)
      | Some f \<Rightarrow>
          (case load_attempt ev now fs f of
             Inr cache_data \<Rightarrow> (cache_data, fs)
           | Inl JSONDecodeError \<Rightarrow> (create_empty_cache ev now, backup_corrupted_cache now fs)
           | Inl _ \<Rightarrow> (create_empty_cache ev now, fs)))"

text \<open>
  \<^verbatim>\<open>save_cache\<close>: the metadata are updated, the document is written to the temporary
  file and the temporary file is renamed over the cache file. The result is the returned
  boolean and the directory afterwards. The handler for \<^verbatim>\<open>PermissionError\<close> returns
  at once; the handler for any other exception removes the temporary file first.
\<close>

definition stamped :: "'r env \<Rightarrow> int \<Rightarrow> 'r cache \<Rightarrow> 'r cache" where
  "stamped ev now c =
     (let m = (case metadata c of
                 None \<Rightarrow> \<lparr>total_queries = None, last_cleanup = None, last_updated = None\<rparr>
               | Some m \<Rightarrow> m)
      in c\<lparr>metadata := Some (m\<lparr>total_queries := Some (queries_len c),
                                last_updated := Some (isoformat ev now)\<rparr>)\<rparr>)"

definition save_cache :: "'r env \<Rightarrow> int \<Rightarrow> 'r cache \<Rightarrow> 'r fs \<Rightarrow> bool \<times> 'r fs" where
  "save_cache ev now c fs =
     (let c = stamped ev now c;
          written = \<lparr>content = Document c, size_bytes = json_size ev c\<rparr>
      in case medium fs of
           ReadOnly \<Rightarrow> (False, fs)
         | DiskFull \<Rightarrow> (False, fs\<lparr>temp_file := None\<rparr>)
         | Writable \<Rightarrow>
             (case rename_fault fs of
                None \<Rightarrow> (True, fs\<lparr>temp_file := None, cache_file := Some written\<rparr>)
              | Some PermissionError \<Rightarrow> (False, fs\<lparr>temp_file := Some written\<rparr>)
              | Some _ \<Rightarrow> (False, fs\<lparr>temp_file := None\<rparr>)))"

text \<open>
  \<^verbatim>\<open>get_cached_results\<close>: \<open>now_load\<close> is the clock when \<^verbatim>\<open>load_cache\<close> sweeps,
  \<open>now\<close> the clock at the function's own expiry test and at its save.
\<close>

definition get_cached_results ::
  "'r env \<Rightarrow> int \<Rightarrow> int \<Rightarrow> string \<Rightarrow> 'r fs \<Rightarrow> 'r list option \<times> 'r fs" where
  "get_cached_results ev now_load now cache_key fs =
     (case load_cache ev now_load fs of
        (c, fs) \<Rightarrow>
          (let queries = (case search_queries c of None \<Rightarrow> [] | Some qs \<Rightarrow> qs) in
           case map_of queries cache_key of
             None \<Rightarrow> (None, fs)
           | Some e \<Rightarrow>
               (let timestamp_str = timestamp e in
                if timestamp_str \<noteq> [] then
                  (case fromisoformat ev timestamp_str of
                     None \<Rightarrow> (None, fs)
                   | Some entry_date \<Rightarrow>
                       if entry_date < now - timedelta_days (expiry_days ev) then
                         (None,
                          snd (save_cache ev now
                                 (c\<lparr>search_queries := Some (AList.delete cache_key queries)\<rparr>) fs))
                       else (Some (results e), fs))
                else (Some (results e), fs))))"

definition save_query_results ::
  "'r env \<Rightarrow> int \<Rightarrow> int \<Rightarrow> string \<Rightarrow> 'r list \<Rightarrow> 'r fs \<Rightarrow> bool \<times> 'r fs" where
  "save_query_results ev now_load now cache_key rs fs =
     (case load_cache ev now_load fs of
        (c, fs) \<Rightarrow>
          (let queries = (case search_queries c of None \<Rightarrow> [] | Some qs \<Rightarrow> qs);
               c = c\<lparr>search_queries :=
                      Some (AList.update cache_key
                              \<lparr>timestamp = isoformat ev now, results = rs, count = length rs\<rparr>
                              queries)\<rparr>
           in save_cache ev now c fs))"

text \<open>The entries of the persisted store, when the cache file holds a document.\<close>

definition persisted_queries :: "'r fs \<Rightarrow> (string \<times> 'r entry) list" where
  "persisted_queries fs =
     (case cache_file fs of
        Some f \<Rightarrow>
          (case content f of
             Document c \<Rightarrow> (case search_queries c of Some qs \<Rightarrow> qs | None \<Rightarrow> [])
           | _ \<Rightarrow> [])
      | None \<Rightarrow> [])"

subsection \<open>Concrete stores\<close>

text \<open>
  Concrete inputs for the cache. The clock counts microseconds from
  2026-01-01T00:00:00; the table lists the instants used below with the strings that
  \<^verbatim>\<open>isoformat\<close> prints for them and \<^verbatim>\<open>fromisoformat\<close> reads back. The byte count
  is a stand-in that grows with the number of entries. Payload records are names.
\<close>

definition day :: int where
  "day = 86400000000"

definition stamp_table :: "(string \<times> int) list" where
  "stamp_table =
     [(''2026-01-01T00:00:00'', 0),
      (''2026-02-01T00:00:00'', 31 * day),
      (''2026-03-01T00:00:00'', 59 * day),
      (''2026-03-02T00:00:00'', 60 * day)]"

definition table_env :: "string env" where
  "table_env =
     \<lparr>expiry_days = CACHE_EXPIRY_DAYS,
      fromisoformat = map_of stamp_table,
      isoformat = (\<lambda>t. case find (\<lambda>p. snd p = t) stamp_table of
                          Some p \<Rightarrow> fst p
                        | None \<Rightarrow> []),
      json_size = (\<lambda>c. 200 + 150 * int (queries_len c))\<rparr>"

definition store_of :: "(string \<times> string entry) list \<Rightarrow> string fs" where
  "store_of queries =
     (let c = \<lparr>version = ''1.0'', created = ''2026-01-01T00:00:00'',
               search_queries = Some queries,
               metadata = Some \<lparr>total_queries = Some (length queries),
                                 last_cleanup = Some ''2026-01-01T00:00:00'',
                                 last_updated = Some ''2026-01-01T00:00:00''\<rparr>\<rparr>
      in \<lparr>cache_file = Some \<lparr>content = Document c, size_bytes = json_size table_env c\<rparr>,
          temp_file = None, corrupted_files = [], medium = Writable,
          rename_fault = None\<rparr>)"

text \<open>A store with one entry written on 1 January.\<close>

definition january_entry :: "string entry" where
  "january_entry =
     \<lparr>timestamp = ''2026-01-01T00:00:00'', results = [''Jane Doe''], count = 1\<rparr>"

definition january_store :: "string fs" where
  "january_store = store_of [(''hepatotoxicity_20_5'', january_entry)]"

text \<open>A store with fifty entries written on 1 March, under the keys q00 to q49.\<close>

definition numbered_key :: "nat \<Rightarrow> string" where
  "numbered_key n = [CHR ''q'', char_of (48 + n div 10), char_of (48 + n mod 10)]"

definition march_entry :: "string entry" where
  "march_entry =
     \<lparr>timestamp = ''2026-03-01T00:00:00'', results = [''Jane Doe''], count = 1\<rparr>"

definition full_store :: "string fs" where
  "full_store = store_of (map (\<lambda>n. (numbered_key n, march_entry)) [0..<50])"

text \<open>A store whose file is not JSON, and one with an entry that has no timestamp.\<close>

definition garbled_store :: "string fs" where
  "garbled_store =
     \<lparr>cache_file = Some \<lparr>content = Garbled, size_bytes = 17\<rparr>,
      temp_file = None, corrupted_files = [], medium = Writable,
          rename_fault = None\<rparr>"

text \<open>A store whose file holds bytes that are not UTF-8.\<close>

definition undecodable_store :: "string fs" where
  "undecodable_store =
     \<lparr>cache_file = Some \<lparr>content = Unreadable, size_bytes = 17\<rparr>,
      temp_file = None, corrupted_files = [], medium = Writable, rename_fault = None\<rparr>"



text \<open>\<^verbatim>\<open>cache.get('search_queries', {})\<close>\<close>

definition queries_of :: "'r cache \<Rightarrow> (string \<times> 'r entry) list" where
  "queries_of c = (case search_queries c of None \<Rightarrow> [] | Some qs \<Rightarrow> qs)"

text \<open>The size of the cache file in bytes, 0 when there is none.\<close>

definition persisted_bytes :: "'r fs \<Rightarrow> int" where
  "persisted_bytes fs = (case cache_file fs of None \<Rightarrow> 0 | Some f \<Rightarrow> size_bytes f)"

text \<open>
  A store of forty entries whose payloads take three million bytes each in JSON: the
  file is larger than the budget of 100 MB although it holds fewer than 50 entries.
\<close>

definition heavy_env :: "string env" where
  "heavy_env = table_env\<lparr>json_size := (\<lambda>c. 200 + 3000000 * int (queries_len c))\<rparr>"

definition heavy_store :: "string fs" where
  "heavy_store =
     (let c = \<lparr>version = ''1.0'', created = ''2026-01-01T00:00:00'',
               search_queries = Some (map (\<lambda>n. (numbered_key n, march_entry)) [0..<40]),
               metadata = Some \<lparr>total_queries = Some 40,
                                 last_cleanup = Some ''2026-01-01T00:00:00'',
                                 last_updated = Some ''2026-03-01T00:00:00''\<rparr>\<rparr>
      in \<lparr>cache_file = Some \<lparr>content = Document c, size_bytes = json_size heavy_env c\<rparr>,
          temp_file = None, corrupted_files = [], medium = Writable,
          rename_fault = None\<rparr>)"



section \<open>Verification: rank assigner\<close>

lemma assign_loop_length: "length (assign_loop cr cs rc ls) = length ls"
  by (induction ls arbitrary: cr cs rc) (auto simp: Let_def)

lemma higher_count_append: "higher_count s (xs @ ys) = higher_count s xs + higher_count s ys"
  by (simp add: higher_count_def)

lemma higher_count_none: "\<forall>x \<in> set xs. score_of x \<le> s \<Longrightarrow> higher_count s xs = 0"
  by (induction xs) (auto simp: higher_count_def)

lemma higher_count_all: "\<forall>x \<in> set xs. s < score_of x \<Longrightarrow> higher_count s xs = int (length xs)"
  by (induction xs) (auto simp: higher_count_def)

lemma split_count:
  "\<forall>x \<in> set xs. t \<le> score_of x \<Longrightarrow>
   higher_count t xs + int (length (filter (\<lambda>x. score_of x = t) xs)) = int (length xs)"
  by (induction xs) (auto simp: higher_count_def)

lemma sorted_desc_mid:
  assumes "sorted_desc (pre @ l # ls)"
  shows "\<And>x. x \<in> set pre \<Longrightarrow> score_of l \<le> score_of x"
    and "\<And>x. x \<in> set ls \<Longrightarrow> score_of x \<le> score_of l"
    and "sorted_desc ((pre @ [l]) @ ls)"
  using assms by (auto simp: sorted_desc_def sorted_wrt_append)

lemma sorted_desc_last:
  assumes "sorted_desc (pre @ ls)" "pre \<noteq> []"
  shows "\<And>x. x \<in> set pre \<Longrightarrow> score_of (last pre) \<le> score_of x"
proof -
  fix x assume "x \<in> set pre"
  obtain p q where pq: "pre = p @ [q]" using assms(2) by (metis append_butlast_last_id)
  with assms(1) have "sorted_desc (p @ [q])" by (auto simp: sorted_desc_def sorted_wrt_append)
  with pq \<open>x \<in> set pre\<close> show "score_of (last pre) \<le> score_of x"
    by (auto simp: sorted_desc_def sorted_wrt_append)
qed

lemma assign_loop_rank:
  assumes "sorted_desc (pre @ ls)"
    and "pre = [] \<Longrightarrow> cs = None \<and> cr = 1"
    and "pre \<noteq> [] \<Longrightarrow> cs = Some (score_of (last pre)) \<and>
           cr = 1 + higher_count (score_of (last pre)) pre \<and>
           rc = int (length (filter (\<lambda>x. score_of x = score_of (last pre)) pre))"
    and "i < length ls"
  shows "rank (assign_loop cr cs rc ls ! i) = Some (1 + higher_count (score_of (ls ! i)) (pre @ ls))"
  using assms
proof (induction ls arbitrary: pre cr cs rc i)
  case Nil
  then show ?case by simp
next
  case (Cons l ls)
  note sd = sorted_desc_mid[OF Cons.prems(1)]
  have tail0: "higher_count (score_of l) (l # ls) = 0"
    by (rule higher_count_none) (use sd(2) in auto)
  show ?case
  proof (cases "pre = []")
    case True
    then have cs: "cs = None" "cr = 1" using Cons.prems(2) by auto
    show ?thesis
    proof (cases i)
      case 0
      then show ?thesis using cs True tail0 by (simp add: Let_def)
    next
      case (Suc k)
      have "rank (assign_loop 1 (Some (score_of l)) 1 ls ! k) =
            Some (1 + higher_count (score_of (ls ! k)) ((pre @ [l]) @ ls))"
        by (rule Cons.IH[OF sd(3)]) (use True Suc Cons.prems(4) in \<open>auto simp: higher_count_def\<close>)
      then show ?thesis using cs Suc by (simp add: Let_def)
    qed
  next
    case False
    let ?t = "score_of (last pre)"
    from False Cons.prems(3) have inv: "cs = Some ?t" "cr = 1 + higher_count ?t pre"
      "rc = int (length (filter (\<lambda>x. score_of x = ?t) pre))" by auto
    note lastle = sorted_desc_last[OF Cons.prems(1) False]
    have l_le: "score_of l \<le> ?t" using sd(1)[of "last pre"] False by simp
    show ?thesis
    proof (cases "score_of l = ?t")
      case same: True
      have hc: "higher_count (score_of l) (pre @ l # ls) = higher_count ?t pre"
        using tail0 same by (simp add: higher_count_append)
      show ?thesis
      proof (cases i)
        case 0
        then show ?thesis using inv same hc by (simp add: Let_def)
      next
        case (Suc k)
        have "rank (assign_loop cr cs (rc + 1) ls ! k) =
              Some (1 + higher_count (score_of (ls ! k)) ((pre @ [l]) @ ls))"
          by (rule Cons.IH[OF sd(3)])
             (use inv same Suc Cons.prems(4) in \<open>auto simp: higher_count_append higher_count_def\<close>)
        then show ?thesis using inv same Suc by (simp add: Let_def)
      qed
    next
      case diff: False
      with l_le have lt: "score_of l < ?t" by simp
      have gt: "\<forall>x \<in> set pre. score_of l < score_of x"
        using lastle lt by force
      have "higher_count (score_of l) pre = int (length pre)"
        by (rule higher_count_all) (rule gt)
      moreover have "higher_count ?t pre + rc = int (length pre)"
        unfolding inv(3) by (rule split_count) (use lastle in auto)
      ultimately have newrank: "cr + rc = 1 + higher_count (score_of l) pre"
        using inv(2) by simp
      have hc: "higher_count (score_of l) (pre @ l # ls) = higher_count (score_of l) pre"
        using tail0 by (simp add: higher_count_append)
      show ?thesis
      proof (cases i)
        case 0
        then show ?thesis using inv diff hc newrank by (simp add: Let_def)
      next
        case (Suc k)
        have "rank (assign_loop (cr + rc) (Some (score_of l)) 1 ls ! k) =
              Some (1 + higher_count (score_of (ls ! k)) ((pre @ [l]) @ ls))"
        proof (rule Cons.IH[OF sd(3)])
          show "pre @ [l] \<noteq> [] \<Longrightarrow> Some (score_of l) = Some (score_of (last (pre @ [l]))) \<and>
             cr + rc = 1 + higher_count (score_of (last (pre @ [l]))) (pre @ [l]) \<and>
             1 = int (length (filter (\<lambda>x. score_of x = score_of (last (pre @ [l]))) (pre @ [l])))"
            using newrank gt by (auto simp: higher_count_append higher_count_def filter_empty_conv)
        qed (use Suc Cons.prems(4) in auto)
        then show ?thesis using inv diff Suc by (simp add: Let_def)
      qed
    qed
  qed
qed

lemma assign_loop_keeps:
  assumes "i < length ls"
  shows "assign_loop cr cs rc ls ! i = (ls ! i)\<lparr>rank := rank (assign_loop cr cs rc ls ! i)\<rparr>"
proof -
  have "i < length ls \<Longrightarrow> text_fields (assign_loop cr cs rc ls ! i) = text_fields (ls ! i) \<and>
        propensity_score (assign_loop cr cs rc ls ! i) = propensity_score (ls ! i) \<and>
        ranked_lead.more (assign_loop cr cs rc ls ! i) = ranked_lead.more (ls ! i)"
  proof (induction ls arbitrary: cr cs rc i)
    case Nil
    then show ?case by simp
  next
    case (Cons l ls)
    then show ?case by (cases i) (simp_all add: Let_def)
  qed
  with assms show ?thesis by (intro ranked_lead.equality) simp_all
qed

lemma assign_ranks_nth:
  assumes "sorted_desc ls" and "i < length ls"
  shows "assign_ranks ls ! i = (ls ! i)\<lparr>rank := Some (1 + higher_count (score_of (ls ! i)) ls)\<rparr>"
proof -
  from assms(2) have ne: "ls \<noteq> []" by auto
  have "rank (assign_loop 1 None 0 ls ! i) = Some (1 + higher_count (score_of (ls ! i)) ([] @ ls))"
    by (rule assign_loop_rank) (use assms in auto)
  moreover have "assign_loop 1 None 0 ls ! i = (ls ! i)\<lparr>rank := rank (assign_loop 1 None 0 ls ! i)\<rparr>"
    by (rule assign_loop_keeps) (rule assms(2))
  ultimately show ?thesis using ne by (simp add: assign_ranks_def)
qed

lemma assign_ranks_first:
  assumes "sorted_desc ls" and "ls \<noteq> []"
  shows "rank (assign_ranks ls ! 0) = Some 1"
proof -
  obtain l rest where ls: "ls = l # rest" using assms(2) by (cases ls) auto
  have "\<forall>x \<in> set ls. score_of x \<le> score_of l"
    using assms(1) ls by (auto simp: sorted_desc_def)
  then have "higher_count (score_of (ls ! 0)) ls = 0"
    using ls by (intro higher_count_none) simp
  then show ?thesis
    using assign_ranks_nth[OF assms(1), of 0] assms(2) by simp
qed

text \<open>
  Claim C3. On a batch sorted by score, descending, \<open>assign_ranks\<close> returns the same
  leads in the same order, each with its \<open>rank\<close> set to one plus the number of leads of
  the batch whose score is strictly higher; hence leads with equal scores share a rank
  and the first lead has rank 1. The scores 90, 90, 70, 70, 70, 10 get the ranks
  1, 1, 3, 3, 3, 6.
\<close>

theorem assign_ranks_competition:
  assumes "sorted_desc ls"
  shows "length (assign_ranks ls) = length ls \<and>
    (\<forall>i < length ls.
       assign_ranks ls ! i = (ls ! i)\<lparr>rank := Some (1 + higher_count (score_of (ls ! i)) ls)\<rparr>) \<and>
    (\<forall>i < length ls. \<forall>j < length ls. score_of (ls ! i) = score_of (ls ! j) \<longrightarrow>
       rank (assign_ranks ls ! i) = rank (assign_ranks ls ! j)) \<and>
    (ls \<noteq> [] \<longrightarrow> rank (assign_ranks ls ! 0) = Some 1) \<and>
    map rank (assign_ranks (map with_score [90, 90, 70, 70, 70, 10])) =
      [Some 1, Some 1, Some 3, Some 3, Some 3, Some 6]"
proof -
  have len: "length (assign_ranks ls) = length ls"
    by (simp add: assign_ranks_def assign_loop_length)
  have nth: "\<forall>i < length ls.
       assign_ranks ls ! i = (ls ! i)\<lparr>rank := Some (1 + higher_count (score_of (ls ! i)) ls)\<rparr>"
    using assign_ranks_nth[OF assms] by blast
  have ties: "\<forall>i < length ls. \<forall>j < length ls. score_of (ls ! i) = score_of (ls ! j) \<longrightarrow>
       rank (assign_ranks ls ! i) = rank (assign_ranks ls ! j)"
    using nth by simp
  have h_first: "ls \<noteq> [] \<longrightarrow> rank (assign_ranks ls ! 0) = Some 1"
    using assign_ranks_first[OF assms] by blast
  have h_ex: "map rank (assign_ranks (map with_score [90, 90, 70, 70, 70, 10])) =
      [Some 1, Some 1, Some 3, Some 3, Some 3, Some 6]"
    by (simp add: assign_ranks_def with_score_def score_of_def)
  from len nth ties h_first h_ex show ?thesis by blast
qed

theorem assign_ranks_competition_witness:
  "sorted_desc (map with_score [90, 90, 70, 70, 70, 10]) \<and>
   length (assign_ranks (map with_score [90, 90, 70, 70, 70, 10])) = 6 \<and>
   rank (assign_ranks (map with_score [90, 90, 70, 70, 70, 10]) ! 0) = Some 1 \<and>
   rank (assign_ranks (map with_score [90, 90, 70, 70, 70, 10]) ! 2) = Some 3 \<and>
   rank (assign_ranks (map with_score [90, 90, 70, 70, 70, 10]) ! 5) = Some 6"
proof -
  let ?ls = "map with_score [90, 90, 70, 70, 70, 10]"
  have sd: "sorted_desc ?ls"
    by (simp add: sorted_desc_def with_score_def score_of_def)
  note inst = assign_ranks_competition[OF sd]
  have len: "length (assign_ranks ?ls) = 6"
    using inst by simp
  have r: "i < 6 \<Longrightarrow>
      rank (assign_ranks ?ls ! i) = Some (1 + higher_count (score_of (?ls ! i)) ?ls)" for i
    using inst by simp
  have "rank (assign_ranks ?ls ! 0) = Some 1"
    using r[of 0] by (simp add: higher_count_def with_score_def score_of_def)
  moreover have "rank (assign_ranks ?ls ! 2) = Some 3"
    using r[of 2] by (simp add: higher_count_def with_score_def score_of_def)
  moreover have "rank (assign_ranks ?ls ! 5) = Some 6"
    using r[of 5] by (simp add: higher_count_def with_score_def score_of_def)
  ultimately show ?thesis using sd len by blast
qed

section \<open>Verification: weighted scorer\<close>

lemma role_fit_values: "calculate_role_fit_score l \<in> {0, 30}"
  by (simp add: calculate_role_fit_score_def Let_def)

lemma scientific_intent_values: "calculate_scientific_intent_score cy l \<in> {0, 40}"
  by (simp add: calculate_scientific_intent_score_def recency_block_def Let_def
      split: option.split)

lemma company_intent_values: "calculate_company_intent_score l \<in> {0, 15, 20}"
  by (simp add: calculate_company_intent_score_def Let_def)

lemma technographic_values: "calculate_technographic_score l \<in> {0, 15}"
  by (simp add: calculate_technographic_score_def Let_def)

lemma hub_loop_values: "hub_loop loc hs \<in> {0, 10}"
  by (induction loc hs rule: hub_loop.induct) auto

lemma location_values: "calculate_location_score l \<in> {0, 10}"
  using hub_loop_values by (simp add: calculate_location_score_def Let_def)

text \<open>
  Once the publication title holds a scientific keyword, the publication date has no
  influence on the scientific-intent score: every path through the date block ends in 40.
\<close>

lemma scientific_intent_ignores_date:
  assumes "get_str l ''publication_title'' \<noteq> []"
    and "any_keyword_in scientific_keywords (lower (get_str l ''publication_title''))"
  shows "calculate_scientific_intent_score cy l = 40"
  using assms
  by (simp add: calculate_scientific_intent_score_def recency_block_def Let_def
      split: option.split)

text \<open>
  Claim C1 (the code departs from it). A lead whose publication title contains the
  keyword "hepatic" and whose publication date "2000-05" starts with the year 2000 is
  scored in 2026: the year parses, it is 26 years old, the date block is left without a
  result, and the function still returns 40 where the claim requires 0.
\<close>

theorem scientific_intent_old_publication:
  "any_keyword_in scientific_keywords (lower (get_str old_hepatic_lead ''publication_title'')) \<and>
   py_int (take 4 (get_str old_hepatic_lead ''publication_date'')) = Some 2000 \<and>
   recency_block 2026 (get_str old_hepatic_lead ''publication_date'') = None \<and>
   calculate_scientific_intent_score 2026 old_hepatic_lead = 40"
  by code_simp

text \<open>
  Claim C4. For every lead and every current year, each of the five sub-scores is
  non-negative and at most its rule's maximum (30, 40, 20, 15, 10), and the propensity
  score is the minimum of 100 and the sum of the five sub-scores.
\<close>

theorem propensity_score_bounds:
  "0 \<le> role_fit (sd_score_breakdown (calculate_propensity_score cy l)) \<and>
   role_fit (sd_score_breakdown (calculate_propensity_score cy l)) \<le> 30 \<and>
   0 \<le> scientific_intent (sd_score_breakdown (calculate_propensity_score cy l)) \<and>
   scientific_intent (sd_score_breakdown (calculate_propensity_score cy l)) \<le> 40 \<and>
   0 \<le> company_intent (sd_score_breakdown (calculate_propensity_score cy l)) \<and>
   company_intent (sd_score_breakdown (calculate_propensity_score cy l)) \<le> 20 \<and>
   0 \<le> technographic (sd_score_breakdown (calculate_propensity_score cy l)) \<and>
   technographic (sd_score_breakdown (calculate_propensity_score cy l)) \<le> 15 \<and>
   0 \<le> location (sd_score_breakdown (calculate_propensity_score cy l)) \<and>
   location (sd_score_breakdown (calculate_propensity_score cy l)) \<le> 10 \<and>
   sd_propensity_score (calculate_propensity_score cy l) =
     min 100 (breakdown_sum (sd_score_breakdown (calculate_propensity_score cy l)))"
proof -
  have bd: "sd_score_breakdown (calculate_propensity_score cy l) =
      \<lparr>role_fit = calculate_role_fit_score l,
       scientific_intent = calculate_scientific_intent_score cy l,
       company_intent = calculate_company_intent_score l,
       technographic = calculate_technographic_score l,
       location = calculate_location_score l\<rparr>"
    by (simp add: calculate_propensity_score_def Let_def)
  have total: "sd_propensity_score (calculate_propensity_score cy l) =
      min 100 (breakdown_sum (sd_score_breakdown (calculate_propensity_score cy l)))"
    by (simp add: calculate_propensity_score_def Let_def min.commute)
  have "0 \<le> calculate_role_fit_score l \<and> calculate_role_fit_score l \<le> 30"
    using role_fit_values[of l] by auto
  moreover have "0 \<le> calculate_scientific_intent_score cy l \<and>
      calculate_scientific_intent_score cy l \<le> 40"
    using scientific_intent_values[of cy l] by auto
  moreover have "0 \<le> calculate_company_intent_score l \<and> calculate_company_intent_score l \<le> 20"
    using company_intent_values[of l] by auto
  moreover have "0 \<le> calculate_technographic_score l \<and> calculate_technographic_score l \<le> 15"
    using technographic_values[of l] by auto
  moreover have "0 \<le> calculate_location_score l \<and> calculate_location_score l \<le> 10"
    using location_values[of l] by auto
  ultimately show ?thesis
    unfolding bd using total by (simp add: bd)
qed

theorem propensity_score_bounds_witness:
  "sd_score_breakdown (calculate_propensity_score 2026 spec_example_lead) =
     \<lparr>role_fit = 30, scientific_intent = 40, company_intent = 20, technographic = 15,
      location = 10\<rparr> \<and>
   breakdown_sum (sd_score_breakdown (calculate_propensity_score 2026 spec_example_lead)) = 115 \<and>
   sd_propensity_score (calculate_propensity_score 2026 spec_example_lead) = 100 \<and>
   sd_priority_level (calculate_propensity_score 2026 spec_example_lead) = ''High''"
proof -
  have bd: "sd_score_breakdown (calculate_propensity_score 2026 spec_example_lead) =
     \<lparr>role_fit = 30, scientific_intent = 40, company_intent = 20, technographic = 15,
      location = 10\<rparr>"
    by code_simp
  have lvl: "sd_priority_level (calculate_propensity_score 2026 spec_example_lead) = ''High''"
    by code_simp
  have "sd_propensity_score (calculate_propensity_score 2026 spec_example_lead) =
     min 100 (breakdown_sum (sd_score_breakdown (calculate_propensity_score 2026 spec_example_lead)))"
    using propensity_score_bounds[of 2026 spec_example_lead] by blast
  then show ?thesis using bd lvl by (simp add: breakdown_sum_def)
qed

section \<open>Verification: merge policy\<close>

text \<open>Each block of the merge writes one field only.\<close>

lemma merge_listed_other: "k' \<noteq> k \<Longrightarrow> merge_listed k m l2 k' = m k'"
  by (simp add: merge_listed_def Let_def)

lemma merge_email_other: "k \<noteq> ''email'' \<Longrightarrow> merge_email m l2 k = m k"
  by (simp add: merge_email_def Let_def)

lemma merge_location_other: "k \<noteq> ''location'' \<Longrightarrow> merge_location m l2 k = m k"
  by (simp add: merge_location_def Let_def)

lemma merge_company_other: "k \<noteq> ''company'' \<Longrightarrow> merge_company m l2 k = m k"
  by (simp add: merge_company_def Let_def)

lemma merge_author_position_other:
  "k \<noteq> ''author_position'' \<Longrightarrow> merge_author_position m l2 k = m k"
  by (simp add: merge_author_position_def Let_def)

lemma merge_pubmed_id_other: "k \<noteq> ''pubmed_id'' \<Longrightarrow> merge_pubmed_id m l2 k = m k"
  by (simp add: merge_pubmed_id_def Let_def)

lemma merge_publication_date_other:
  "k \<noteq> ''publication_date'' \<Longrightarrow> merge_publication_date m l2 k = m k"
  by (simp add: merge_publication_date_def Let_def)

lemmas merge_other =
  merge_listed_other merge_email_other merge_location_other merge_company_other
  merge_author_position_other merge_pubmed_id_other merge_publication_date_other

text \<open>What a block writes depends on its own field of the two leads only.\<close>

lemma merge_email_cong:
  "m ''email'' = m' ''email'' \<Longrightarrow> merge_email m l2 ''email'' = merge_email m' l2 ''email''"
  by (simp add: merge_email_def Let_def get_str_def)

lemma merge_location_cong:
  "m ''location'' = m' ''location'' \<Longrightarrow>
   merge_location m l2 ''location'' = merge_location m' l2 ''location''"
  by (simp add: merge_location_def Let_def get_str_def)

lemma merge_company_cong:
  "m ''company'' = m' ''company'' \<Longrightarrow>
   merge_company m l2 ''company'' = merge_company m' l2 ''company''"
  by (simp add: merge_company_def Let_def get_str_def)

lemma merge_author_position_cong:
  "m ''author_position'' = m' ''author_position'' \<Longrightarrow>
   merge_author_position m l2 ''author_position'' = merge_author_position m' l2 ''author_position''"
  by (simp add: merge_author_position_def Let_def get_str_def)

lemma merge_email_field:
  "merge_lead_data lead1 lead2 ''email'' = merge_email lead1 lead2 ''email''"
proof -
  have "merge_lead_data lead1 lead2 ''email'' =
      merge_email (merge_listed ''publication_title'' lead1 lead2) lead2 ''email''"
    by (simp add: merge_lead_data_def Let_def merge_other)
  also have "\<dots> = merge_email lead1 lead2 ''email''"
    by (rule merge_email_cong) (simp add: merge_other)
  finally show ?thesis .
qed

lemma merge_location_field:
  "merge_lead_data lead1 lead2 ''location'' = merge_location lead1 lead2 ''location''"
proof -
  have "merge_lead_data lead1 lead2 ''location'' =
      merge_location (merge_email (merge_listed ''publication_title'' lead1 lead2) lead2) lead2
        ''location''"
    by (simp add: merge_lead_data_def Let_def merge_other)
  also have "\<dots> = merge_location lead1 lead2 ''location''"
    by (rule merge_location_cong) (simp add: merge_other)
  finally show ?thesis .
qed

lemma merge_company_field:
  "merge_lead_data lead1 lead2 ''company'' = merge_company lead1 lead2 ''company''"
proof -
  have "merge_lead_data lead1 lead2 ''company'' =
      merge_company
        (merge_location (merge_email (merge_listed ''publication_title'' lead1 lead2) lead2) lead2)
        lead2 ''company''"
    by (simp add: merge_lead_data_def Let_def merge_other)
  also have "\<dots> = merge_company lead1 lead2 ''company''"
    by (rule merge_company_cong) (simp add: merge_other)
  finally show ?thesis .
qed

lemma merge_author_position_field:
  "merge_lead_data lead1 lead2 ''author_position'' =
   merge_author_position lead1 lead2 ''author_position''"
proof -
  have "merge_lead_data lead1 lead2 ''author_position'' =
      merge_author_position
        (merge_company
          (merge_location (merge_email (merge_listed ''publication_title'' lead1 lead2) lead2) lead2)
          lead2)
        lead2 ''author_position''"
    by (simp add: merge_lead_data_def Let_def merge_other)
  also have "\<dots> = merge_author_position lead1 lead2 ''author_position''"
    by (rule merge_author_position_cong) (simp add: merge_other)
  finally show ?thesis .
qed

lemma priority_table:
  "priority ''Corresponding Author'' = 4" "priority ''First Author'' = 3"
  "priority ''Last Author'' = 2" "priority ''Co-Author'' = 1"
  by (simp_all add: priority_def)

lemma priority_unranked:
  "pos \<notin> {''Corresponding Author'', ''First Author'', ''Last Author'', ''Co-Author''} \<Longrightarrow>
   priority pos = 0"
  by (simp add: priority_def)

lemma merge_keeps_location:
  "get_str lead1 ''location'' \<noteq> [] \<Longrightarrow>
   merge_lead_data lead1 lead2 ''location'' = lead1 ''location''"
  by (simp add: merge_location_field merge_location_def Let_def)

lemma merge_all_keeps_location:
  "get_str seed ''location'' \<noteq> [] \<Longrightarrow>
   foldl merge_lead_data seed others ''location'' = seed ''location''"
proof (induction others arbitrary: seed)
  case Nil
  then show ?case by simp
next
  case (Cons other others)
  have step: "merge_lead_data seed other ''location'' = seed ''location''"
    by (rule merge_keeps_location) (rule Cons.prems)
  then have "get_str (merge_lead_data seed other) ''location'' \<noteq> []"
    using Cons.prems by (simp add: get_str_def)
  then have "foldl merge_lead_data (merge_lead_data seed other) others ''location'' =
      merge_lead_data seed other ''location''"
    by (rule Cons.IH)
  with step show ?case by simp
qed

text \<open>
  Claim C5. Merging a seed whose email is "a@x.com" with a lead whose email is
  "b@x.com" gives the email "a@x.com; b@x.com"; a seed company "Unknown" is replaced by
  the other lead's company "Acme"; a seed author position "Co-Author" is replaced by the
  other lead's "Corresponding Author", the positions being ranked Corresponding Author 4,
  First Author 3, Last Author 2, Co-Author 1 and every other value 0, and the position
  changes exactly when the other lead's rank is higher; a seed's non-empty location
  survives one merge and any sequence of merges.
\<close>

theorem merge_field_policy:
  "(lead1 ''email'' = Some ''a@x.com'' \<and> lead2 ''email'' = Some ''b@x.com'' \<longrightarrow>
      merge_lead_data lead1 lead2 ''email'' = Some ''a@x.com; b@x.com'') \<and>
   (lead1 ''company'' = Some ''Unknown'' \<and> lead2 ''company'' = Some ''Acme'' \<longrightarrow>
      merge_lead_data lead1 lead2 ''company'' = Some ''Acme'') \<and>
   (lead1 ''author_position'' = Some ''Co-Author'' \<and>
    lead2 ''author_position'' = Some ''Corresponding Author'' \<longrightarrow>
      merge_lead_data lead1 lead2 ''author_position'' = Some ''Corresponding Author'') \<and>
   merge_lead_data lead1 lead2 ''author_position'' =
     (if priority (get_str lead2 ''author_position'') > priority (get_str lead1 ''author_position'')
      then Some (get_str lead2 ''author_position'') else lead1 ''author_position'') \<and>
   priority ''Corresponding Author'' = 4 \<and> priority ''First Author'' = 3 \<and>
   priority ''Last Author'' = 2 \<and> priority ''Co-Author'' = 1 \<and>
   (pos \<notin> {''Corresponding Author'', ''First Author'', ''Last Author'', ''Co-Author''} \<longrightarrow>
      priority pos = 0) \<and>
   (get_str lead1 ''location'' \<noteq> [] \<longrightarrow>
      merge_lead_data lead1 lead2 ''location'' = lead1 ''location'' \<and>
      foldl merge_lead_data lead1 others ''location'' = lead1 ''location'')"
proof -
  have email: "lead1 ''email'' = Some ''a@x.com'' \<and> lead2 ''email'' = Some ''b@x.com'' \<longrightarrow>
      merge_lead_data lead1 lead2 ''email'' = Some ''a@x.com; b@x.com''"
    by (simp add: merge_email_field merge_email_def Let_def get_str_def)
  have company: "lead1 ''company'' = Some ''Unknown'' \<and> lead2 ''company'' = Some ''Acme'' \<longrightarrow>
      merge_lead_data lead1 lead2 ''company'' = Some ''Acme''"
    by (simp add: merge_company_field merge_company_def Let_def get_str_def)
  have pos_rule: "merge_lead_data lead1 lead2 ''author_position'' =
     (if priority (get_str lead2 ''author_position'') > priority (get_str lead1 ''author_position'')
      then Some (get_str lead2 ''author_position'') else lead1 ''author_position'')"
    by (simp add: merge_author_position_field merge_author_position_def Let_def)
  have position: "lead1 ''author_position'' = Some ''Co-Author'' \<and>
    lead2 ''author_position'' = Some ''Corresponding Author'' \<longrightarrow>
      merge_lead_data lead1 lead2 ''author_position'' = Some ''Corresponding Author''"
    unfolding pos_rule by (simp add: get_str_def priority_def)
  have unranked:
    "pos \<notin> {''Corresponding Author'', ''First Author'', ''Last Author'', ''Co-Author''} \<longrightarrow>
      priority pos = 0"
    using priority_unranked by blast
  have location: "get_str lead1 ''location'' \<noteq> [] \<longrightarrow>
      merge_lead_data lead1 lead2 ''location'' = lead1 ''location'' \<and>
      foldl merge_lead_data lead1 others ''location'' = lead1 ''location''"
    using merge_keeps_location merge_all_keeps_location by blast
  from email company position pos_rule priority_table unranked location
  show ?thesis by blast
qed

theorem merge_field_policy_witness:
  "merge_seed_example ''email'' = Some ''a@x.com'' \<and>
   merge_other_example ''email'' = Some ''b@x.com'' \<and>
   merge_lead_data merge_seed_example merge_other_example ''email'' = Some ''a@x.com; b@x.com'' \<and>
   merge_seed_example ''company'' = Some ''Unknown'' \<and>
   merge_other_example ''company'' = Some ''Acme'' \<and>
   merge_lead_data merge_seed_example merge_other_example ''company'' = Some ''Acme'' \<and>
   merge_seed_example ''author_position'' = Some ''Co-Author'' \<and>
   merge_other_example ''author_position'' = Some ''Corresponding Author'' \<and>
   merge_lead_data merge_seed_example merge_other_example ''author_position'' =
     Some ''Corresponding Author'' \<and>
   priority ''Editor'' = 0 \<and>
   get_str merge_seed_example ''location'' = ''Boston, USA'' \<and>
   get_str merge_other_example ''location'' = ''Basel, Switzerland'' \<and>
   merge_lead_data merge_seed_example merge_other_example ''location'' = Some ''Boston, USA''"
proof -
  have facts:
    "merge_seed_example ''email'' = Some ''a@x.com''"
    "merge_other_example ''email'' = Some ''b@x.com''"
    "merge_seed_example ''company'' = Some ''Unknown''"
    "merge_other_example ''company'' = Some ''Acme''"
    "merge_seed_example ''author_position'' = Some ''Co-Author''"
    "merge_other_example ''author_position'' = Some ''Corresponding Author''"
    "merge_seed_example ''location'' = Some ''Boston, USA''"
    "merge_other_example ''location'' = Some ''Basel, Switzerland''"
    by (simp_all add: merge_seed_example_def merge_other_example_def)
  have loc: "get_str merge_seed_example ''location'' = ''Boston, USA''"
    "get_str merge_other_example ''location'' = ''Basel, Switzerland''"
    by (simp_all add: get_str_def facts)
  have editor: "''Editor'' \<notin> {''Corresponding Author'', ''First Author'', ''Last Author'', ''Co-Author''}"
    by simp
  show ?thesis
    using merge_field_policy[of merge_seed_example merge_other_example "''Editor''" "[]"]
      facts loc editor
    by simp
qed

section \<open>Verification: affiliation text extractor\<close>

lemma first_company_find:
  "first_company parts = find (\<lambda>seg. length seg > 3) (surviving parts)"
  by (induction parts) (auto simp: surviving_def discarded_def Let_def)

lemma first_substantial_find:
  "first_substantial parts = find (\<lambda>seg. length seg > 5) parts"
  by (induction parts) auto

lemma segments_empty: "segments [] = [[]]"
  by (simp add: segments_def remove_emails_def flush_token_def is_email_token_def strip_def)

text \<open>
  Claim C9. For every affiliation string, \<open>extract_company_from_affiliation\<close> returns
  what the specification describes: with the emails removed and the text split on commas
  (each segment trimmed), the first segment longer than 3 characters among those that
  contain no denylist keyword, do not start with a digit and have at least 3 characters;
  if there is none, the first segment longer than 5 characters; otherwise "Unknown".
\<close>

theorem extract_company_refines_spec:
  "extract_company_from_affiliation affiliation = spec_extract_company affiliation"
proof (cases "affiliation = []")
  case True
  then show ?thesis
    by (simp add: extract_company_from_affiliation_def spec_extract_company_def segments_empty
        surviving_def discarded_def)
next
  case False
  then show ?thesis
    unfolding extract_company_from_affiliation_def spec_extract_company_def segments_def
      first_company_find first_substantial_find Let_def
    by simp
qed

theorem extract_company_refines_spec_witness:
  "segments affiliation_example =
     [''Department of Pharmacology'', ''Acme Biotech Inc'', ''02139 Cambridge'', ''USA.''] \<and>
   surviving (segments affiliation_example) = [''Acme Biotech Inc'', ''USA.''] \<and>
   extract_company_from_affiliation affiliation_example = ''Acme Biotech Inc'' \<and>
   extract_company_from_affiliation ''MIT, 12 Main St, UK'' = ''12 Main St'' \<and>
   extract_company_from_affiliation ''MIT, UK'' = ''Unknown''"
proof -
  have segs: "segments affiliation_example =
     [''Department of Pharmacology'', ''Acme Biotech Inc'', ''02139 Cambridge'', ''USA.'']"
    by code_simp
  have surv: "surviving (segments affiliation_example) = [''Acme Biotech Inc'', ''USA.'']"
    by code_simp
  have "spec_extract_company affiliation_example = ''Acme Biotech Inc''"
    unfolding spec_extract_company_def surv by simp
  then have one: "extract_company_from_affiliation affiliation_example = ''Acme Biotech Inc''"
    using extract_company_refines_spec[of affiliation_example] by simp
  have "spec_extract_company ''MIT, 12 Main St, UK'' = ''12 Main St''"
    by code_simp
  then have two: "extract_company_from_affiliation ''MIT, 12 Main St, UK'' = ''12 Main St''"
    using extract_company_refines_spec[of "''MIT, 12 Main St, UK''"] by simp
  have "spec_extract_company ''MIT, UK'' = ''Unknown''"
    by code_simp
  then have three: "extract_company_from_affiliation ''MIT, UK'' = ''Unknown''"
    using extract_company_refines_spec[of "''MIT, UK''"] by simp
  from segs surv one two three show ?thesis by blast
qed

section \<open>Verification: fuzzy deduplicator\<close>

















section \<open>Verification: cache store\<close>

lemma load_cache_missing:
  "cache_file fs = None \<Longrightarrow> load_cache ev now fs = (create_empty_cache ev now, fs)"
  by (simp add: load_cache_def)

lemma load_cache_raised:
  "cache_file fs = Some f \<Longrightarrow> load_attempt ev now fs f = Inl e \<Longrightarrow>
   fst (load_cache ev now fs) = create_empty_cache ev now"
  by (cases e) (simp_all add: load_cache_def)

lemma load_cache_non_object:
  "cache_file fs = Some f \<Longrightarrow> content f = NonObject \<Longrightarrow>
   load_cache ev now fs = (create_empty_cache ev now, fs)"
  by (simp add: load_cache_def load_attempt_def)

lemma load_cache_unreadable:
  "cache_file fs = Some f \<Longrightarrow> content f = Unreadable \<Longrightarrow>
   load_cache ev now fs = (create_empty_cache ev now, fs)"
  by (simp add: load_cache_def load_attempt_def)

lemma load_cache_garbled:
  "cache_file fs = Some f \<Longrightarrow> content f = Garbled \<Longrightarrow>
   load_cache ev now fs =
     (create_empty_cache ev now,
      if can_rename fs
      then fs\<lparr>cache_file := None,
              corrupted_files := AList.update (second_of now) f (corrupted_files fs)\<rparr>
      else fs)"
  by (simp add: load_cache_def load_attempt_def backup_corrupted_cache_def)

lemma load_cache_document_fs:
  "cache_file fs = Some f \<Longrightarrow> content f = Document c \<Longrightarrow> snd (load_cache ev now fs) = fs"
proof -
  assume f: "cache_file fs = Some f" and c: "content f = Document c"
  have "load_attempt ev now fs f \<noteq> Inl JSONDecodeError"
  proof (cases "cleanup_expired_entries ev now c")
    case (Inl e)
    then have "e = KeyError"
      by (auto simp: cleanup_expired_entries_def with_metadata_def Let_def
          split: option.splits if_splits)
    with Inl c show ?thesis by (simp add: load_attempt_def)
  next
    case (Inr c1)
    have "enforce_size_limits ev now fs c1 \<noteq> Inl JSONDecodeError"
      by (auto simp: enforce_size_limits_def remove_oldest_entries_def with_metadata_def Let_def
          split: option.splits if_splits prod.splits sum.splits)
    with Inr c show ?thesis by (simp add: load_attempt_def)
  qed
  then show ?thesis using f
    by (cases "load_attempt ev now fs f") (auto simp: load_cache_def split: exn.splits)
qed

lemma save_cache_ok:
  "medium fs = Writable \<Longrightarrow> rename_fault fs = None \<Longrightarrow>
   save_cache ev now c fs =
     (True, fs\<lparr>temp_file := None,
               cache_file := Some \<lparr>content = Document (stamped ev now c),
                                    size_bytes = json_size ev (stamped ev now c)\<rparr>\<rparr>)"
  by (simp add: save_cache_def Let_def)

lemma save_cache_failed:
  "\<not> (medium fs = Writable \<and> rename_fault fs = None) \<Longrightarrow>
   \<not> fst (save_cache ev now c fs) \<and>
   cache_file (snd (save_cache ev now c fs)) = cache_file fs \<and>
   corrupted_files (snd (save_cache ev now c fs)) = corrupted_files fs"
  by (cases "medium fs"; cases "rename_fault fs")
     (auto simp: save_cache_def Let_def split: exn.split)

text \<open>
  Claim C8, as stated, fails. The cache file holds bytes that are not UTF-8, so reading it
  raises \<^verbatim>\<open>UnicodeDecodeError\<close>, which the handler for \<^verbatim>\<open>JSONDecodeError\<close> does not
  catch: \<open>load_cache\<close> returns the empty store and leaves the directory as it is, nothing
  is renamed aside, and the put that follows replaces the file with a one-entry
  document. The file failed to parse and was overwritten, not quarantined.
\<close>

theorem undecodable_file_overwritten:
  "cache_file undecodable_store = Some \<lparr>content = Unreadable, size_bytes = 17\<rparr> \<and>
   load_cache table_env (60 * day) undecodable_store =
     (create_empty_cache table_env (60 * day), undecodable_store) \<and>
   fst (save_query_results table_env (60 * day) (60 * day) ''dili_20_5'' [''John Smith'']
          undecodable_store) \<and>
   corrupted_files
     (snd (save_query_results table_env (60 * day) (60 * day) ''dili_20_5'' [''John Smith'']
             undecodable_store)) = [] \<and>
   map fst (persisted_queries
     (snd (save_query_results table_env (60 * day) (60 * day) ''dili_20_5'' [''John Smith'']
             undecodable_store))) = [''dili_20_5'']"
proof -
  have a: "cache_file undecodable_store = Some \<lparr>content = Unreadable, size_bytes = 17\<rparr>"
    by (simp add: undecodable_store_def)
  have b: "load_cache table_env (60 * day) undecodable_store =
     (create_empty_cache table_env (60 * day), undecodable_store)"
    by (rule load_cache_unreadable[OF a]) simp
  have c: "fst (save_query_results table_env (60 * day) (60 * day) ''dili_20_5'' [''John Smith'']
          undecodable_store)"
    by code_simp
  have d: "corrupted_files
     (snd (save_query_results table_env (60 * day) (60 * day) ''dili_20_5'' [''John Smith'']
             undecodable_store)) = []"
    by code_simp
  have e: "map fst (persisted_queries
     (snd (save_query_results table_env (60 * day) (60 * day) ''dili_20_5'' [''John Smith'']
             undecodable_store))) = [''dili_20_5'']"
    by code_simp
  from a b c d e show ?thesis by blast
qed

text \<open>
  Claim C8, amended. \<open>load_cache\<close> always returns a store: when the file is missing, when
  it cannot be read or decoded, when \<^verbatim>\<open>json.load\<close> rejects it, when the JSON value is
  not an object and when any exception leaves the \<^verbatim>\<open>try\<close> block, the store returned is
  the empty one. Only a file that \<^verbatim>\<open>json.load\<close> rejects with \<^verbatim>\<open>JSONDecodeError\<close> is
  renamed aside, under the name of the current second, replacing a backup made in the same
  second, and only when the rename succeeds; when the rename raises, and for every other
  kind of file, loading leaves the directory unchanged. \<open>save_cache\<close> returns a boolean:
  \<open>True\<close> exactly when the write and the rename go through, and then the cache file
  holds the stamped document; on \<open>False\<close> the cache file is the one that was there
  before.
\<close>

theorem load_degrades_save_reports:
  "(cache_file fs = None \<longrightarrow> load_cache ev now fs = (create_empty_cache ev now, fs)) \<and>
   (\<forall>f e. cache_file fs = Some f \<and> load_attempt ev now fs f = Inl e \<longrightarrow>
      fst (load_cache ev now fs) = create_empty_cache ev now) \<and>
   (\<forall>f. cache_file fs = Some f \<and> content f \<in> {Garbled, Unreadable, NonObject} \<longrightarrow>
      fst (load_cache ev now fs) = create_empty_cache ev now) \<and>
   (\<forall>f. cache_file fs = Some f \<and> content f = Garbled \<and> can_rename fs \<longrightarrow>
      snd (load_cache ev now fs) =
        fs\<lparr>cache_file := None,
            corrupted_files := AList.update (second_of now) f (corrupted_files fs)\<rparr>) \<and>
   (\<forall>f. cache_file fs = Some f \<and> content f = Garbled \<and> \<not> can_rename fs \<longrightarrow>
      snd (load_cache ev now fs) = fs) \<and>
   (\<forall>f. cache_file fs = Some f \<and> content f \<noteq> Garbled \<longrightarrow>
      snd (load_cache ev now fs) = fs) \<and>
   (fst (save_cache ev now c fs) \<longleftrightarrow> medium fs = Writable \<and> rename_fault fs = None) \<and>
   (fst (save_cache ev now c fs) \<longrightarrow>
      cache_file (snd (save_cache ev now c fs)) =
        Some \<lparr>content = Document (stamped ev now c),
              size_bytes = json_size ev (stamped ev now c)\<rparr>) \<and>
   (\<not> fst (save_cache ev now c fs) \<longrightarrow>
      cache_file (snd (save_cache ev now c fs)) = cache_file fs)"
proof -
  have missing: "cache_file fs = None \<longrightarrow> load_cache ev now fs = (create_empty_cache ev now, fs)"
    using load_cache_missing by blast
  have raised: "\<forall>f e. cache_file fs = Some f \<and> load_attempt ev now fs f = Inl e \<longrightarrow>
      fst (load_cache ev now fs) = create_empty_cache ev now"
    using load_cache_raised by blast
  have kinds: "\<forall>f. cache_file fs = Some f \<and> content f \<in> {Garbled, Unreadable, NonObject} \<longrightarrow>
      fst (load_cache ev now fs) = create_empty_cache ev now"
    using load_cache_garbled[of fs _ ev now] load_cache_unreadable[of fs _ ev now]
      load_cache_non_object[of fs _ ev now]
    by auto
  have aside: "\<forall>f. cache_file fs = Some f \<and> content f = Garbled \<and> can_rename fs \<longrightarrow>
      snd (load_cache ev now fs) =
        fs\<lparr>cache_file := None,
            corrupted_files := AList.update (second_of now) f (corrupted_files fs)\<rparr>"
    using load_cache_garbled[of fs _ ev now] by auto
  have refused: "\<forall>f. cache_file fs = Some f \<and> content f = Garbled \<and> \<not> can_rename fs \<longrightarrow>
      snd (load_cache ev now fs) = fs"
    using load_cache_garbled[of fs _ ev now] by auto
  have untouched: "\<forall>f. cache_file fs = Some f \<and> content f \<noteq> Garbled \<longrightarrow>
      snd (load_cache ev now fs) = fs"
  proof (intro allI impI)
    fix f assume a: "cache_file fs = Some f \<and> content f \<noteq> Garbled"
    show "snd (load_cache ev now fs) = fs"
    proof (cases "content f")
      case Garbled
      with a show ?thesis by simp
    next
      case Unreadable
      with a show ?thesis using load_cache_unreadable[of fs f ev now] by auto
    next
      case NonObject
      with a show ?thesis using load_cache_non_object[of fs f ev now] by auto
    next
      case (Document d)
      with a show ?thesis using load_cache_document_fs[of fs f d ev now] by auto
    qed
  qed
  have s: "(fst (save_cache ev now c fs) \<longleftrightarrow> medium fs = Writable \<and> rename_fault fs = None) \<and>
    (fst (save_cache ev now c fs) \<longrightarrow>
      cache_file (snd (save_cache ev now c fs)) =
        Some \<lparr>content = Document (stamped ev now c),
              size_bytes = json_size ev (stamped ev now c)\<rparr>) \<and>
    (\<not> fst (save_cache ev now c fs) \<longrightarrow>
      cache_file (snd (save_cache ev now c fs)) = cache_file fs)"
  proof (cases "medium fs = Writable \<and> rename_fault fs = None")
    case True
    then show ?thesis by (simp add: save_cache_ok)
  next
    case False
    from save_cache_failed[OF this, of ev now c] False show ?thesis by blast
  qed
  from missing raised kinds aside refused untouched s show ?thesis by blast
qed

theorem load_degrades_save_reports_witness:
  "cache_file garbled_store = Some \<lparr>content = Garbled, size_bytes = 17\<rparr> \<and>
   can_rename garbled_store \<and>
   load_attempt table_env (60 * day) garbled_store \<lparr>content = Garbled, size_bytes = 17\<rparr> =
     Inl JSONDecodeError \<and>
   fst (load_cache table_env (60 * day) garbled_store) = create_empty_cache table_env (60 * day) \<and>
   snd (load_cache table_env (60 * day) garbled_store) =
     garbled_store\<lparr>cache_file := None,
                    corrupted_files :=
                      [(second_of (60 * day), \<lparr>content = Garbled, size_bytes = 17\<rparr>)]\<rparr> \<and>
   \<not> can_rename (garbled_store\<lparr>rename_fault := Some OSError\<rparr>) \<and>
   snd (load_cache table_env (60 * day) (garbled_store\<lparr>rename_fault := Some OSError\<rparr>)) =
     garbled_store\<lparr>rename_fault := Some OSError\<rparr> \<and>
   fst (save_cache table_env (60 * day) (create_empty_cache table_env (60 * day)) garbled_store) \<and>
   \<not> fst (save_cache table_env (60 * day) (create_empty_cache table_env (60 * day))
            (garbled_store\<lparr>medium := ReadOnly\<rparr>)) \<and>
   cache_file (snd (save_cache table_env (60 * day) (create_empty_cache table_env (60 * day))
            (garbled_store\<lparr>medium := ReadOnly\<rparr>))) = cache_file garbled_store"
proof -
  let ?f = "\<lparr>content = Garbled, size_bytes = 17\<rparr> :: string stored_file"
  let ?e = "create_empty_cache table_env (60 * day)"
  let ?r = "garbled_store\<lparr>rename_fault := Some OSError\<rparr>"
  have f: "cache_file garbled_store = Some ?f" and m: "medium garbled_store = Writable"
    and rf: "rename_fault garbled_store = None"
    and cf: "corrupted_files garbled_store = []"
    by (simp_all add: garbled_store_def)
  have cr: "can_rename garbled_store" and ncr: "\<not> can_rename ?r"
    by (simp_all add: can_rename_def m rf)
  have la: "load_attempt table_env (60 * day) garbled_store ?f = Inl JSONDecodeError"
    by (simp add: load_attempt_def)
  note t1 = load_degrades_save_reports[of garbled_store table_env "60 * day" ?e]
  note t2 = load_degrades_save_reports[of "garbled_store\<lparr>medium := ReadOnly\<rparr>" table_env "60 * day" ?e]
  note t3 = load_degrades_save_reports[of ?r table_env "60 * day" ?e]
  have a: "fst (load_cache table_env (60 * day) garbled_store) = ?e"
    using t1 f la by blast
  have b: "snd (load_cache table_env (60 * day) garbled_store) =
      garbled_store\<lparr>cache_file := None, corrupted_files := [(second_of (60 * day), ?f)]\<rparr>"
    using t1 f cr cf by auto
  have b': "snd (load_cache table_env (60 * day) ?r) = ?r"
    using t3 f ncr by auto
  have c: "fst (save_cache table_env (60 * day) ?e garbled_store)"
    using t1 m rf by blast
  have d: "\<not> fst (save_cache table_env (60 * day) ?e (garbled_store\<lparr>medium := ReadOnly\<rparr>))"
    using t2 by simp
  have e: "cache_file (snd (save_cache table_env (60 * day) ?e (garbled_store\<lparr>medium := ReadOnly\<rparr>))) =
      cache_file garbled_store"
    using t2 by simp
  from f cr la a b ncr b' c d e show ?thesis by blast
qed

lemma map_of_delete_keys:
  "map_of (delete_keys ks qs) k = (if k \<in> set ks then None else map_of qs k)"
  unfolding delete_keys_def
  by (induction ks arbitrary: qs) (auto simp: delete_conv)


lemma set_delete_keys: "set (delete_keys ks qs) \<subseteq> set qs"
  unfolding delete_keys_def
proof (induction ks arbitrary: qs)
  case Nil
  then show ?case by simp
next
  case (Cons k ks)
  have "set (foldl (\<lambda>qs key. AList.delete key qs) (AList.delete k qs) ks)
      \<subseteq> set (AList.delete k qs)"
    by (rule Cons.IH)
  also have "\<dots> \<subseteq> set qs" by (auto simp: AList.delete_eq)
  finally show ?case by simp
qed


lemma expired_keys_iff:
  "k \<in> set (expired_keys ev now qs) \<longleftrightarrow>
   (\<exists>e. (k, e) \<in> set qs \<and> entry_expired ev (now - timedelta_days (expiry_days ev)) e)"
  by (auto simp: expired_keys_def image_iff)


lemma set_sorted_newest_first: "set (sorted_newest_first qs) = set qs"
  by (simp add: sorted_newest_first_def)




lemma queries_of_simps:
  "search_queries c = Some qs \<Longrightarrow> queries_of c = qs"
  "search_queries c = None \<Longrightarrow> queries_of c = []"
  by (simp_all add: queries_of_def)

lemma queries_len_length: "queries_len c = length (queries_of c)"
  by (simp add: queries_len_def queries_of_def split: option.split)

lemma remove_oldest_queries:
  "search_queries c = Some qs \<Longrightarrow>
   queries_of (fst (remove_oldest_entries ev now n c)) = take n (sorted_newest_first qs)"
  by (simp add: remove_oldest_entries_def with_metadata_def queries_of_def Let_def
      split: option.split)

lemma remove_oldest_none:
  "search_queries c = None \<Longrightarrow> remove_oldest_entries ev now n c = (c, None)"
  by (simp add: remove_oldest_entries_def)

lemma remove_oldest_keeps_some:
  "search_queries c \<noteq> None \<Longrightarrow> search_queries (fst (remove_oldest_entries ev now n c)) \<noteq> None"
  by (auto simp: remove_oldest_entries_def with_metadata_def Let_def split: option.split)

lemma remove_oldest_set:
  "set (queries_of (fst (remove_oldest_entries ev now n c))) \<subseteq> set (queries_of c)"
proof (cases "search_queries c")
  case None
  then show ?thesis by (simp add: remove_oldest_none)
next
  case (Some qs)
  have "set (take n (sorted_newest_first qs)) \<subseteq> set qs"
    using set_take_subset[of n "sorted_newest_first qs"] by (simp add: set_sorted_newest_first)
  then show ?thesis using Some by (simp add: remove_oldest_queries queries_of_simps)
qed

lemma remove_oldest_len:
  "search_queries c \<noteq> None \<Longrightarrow> queries_len (fst (remove_oldest_entries ev now n c)) \<le> n"
  by (auto simp: queries_len_length remove_oldest_queries)

text \<open>The dict after the size test of \<^verbatim>\<open>_enforce_size_limits\<close>.\<close>

lemma enforce_result:
  assumes "enforce_size_limits ev now fs c = Inr c'"
  shows "set (queries_of c') \<subseteq> set (queries_of c) \<and> queries_len c' \<le> MAX_CACHE_ENTRIES"
proof (cases "search_queries c")
  case None
  with assms show ?thesis
    by (simp add: enforce_size_limits_def queries_len_def MAX_CACHE_ENTRIES_def)
next
  case (Some qs)
  define c1 where "c1 =
     (case cache_file fs of
        None \<Rightarrow> c
      | Some f \<Rightarrow>
          if size_bytes f > MAX_CACHE_SIZE_MB * (1024 * 1024)
          then fst (remove_oldest_entries ev now MAX_CACHE_ENTRIES c)
          else c)"
  have sub1: "set (queries_of c1) \<subseteq> set (queries_of c)"
    using remove_oldest_set[of ev now MAX_CACHE_ENTRIES c]
    by (auto simp: c1_def split: option.split)
  have some1: "search_queries c1 \<noteq> None"
    using Some remove_oldest_keeps_some[of c ev now MAX_CACHE_ENTRIES]
    by (auto simp: c1_def split: option.split)
  have unfold: "enforce_size_limits ev now fs c =
      (if queries_len c1 > MAX_CACHE_ENTRIES then
         (case remove_oldest_entries ev now MAX_CACHE_ENTRIES c1 of
            (c', None) \<Rightarrow> Inr c'
          | (c', Some e) \<Rightarrow> Inl e)
       else Inr c1)"
    using Some by (simp add: enforce_size_limits_def c1_def Let_def)
  show ?thesis
  proof (cases "queries_len c1 > MAX_CACHE_ENTRIES")
    case True
    with assms unfold have "c' = fst (remove_oldest_entries ev now MAX_CACHE_ENTRIES c1)"
      by (auto split: prod.splits option.splits)
    then show ?thesis
      using remove_oldest_set[of ev now MAX_CACHE_ENTRIES c1] sub1
        remove_oldest_len[OF some1, of ev now MAX_CACHE_ENTRIES]
      by auto
  next
    case False
    with assms unfold have "c' = c1" by simp
    with False sub1 show ?thesis by simp
  qed
qed

lemma cleanup_result:
  assumes "cleanup_expired_entries ev now c = Inr c'"
  shows "set (queries_of c') \<subseteq> set (queries_of c) \<and>
         (\<forall>k. map_of (queries_of c') k =
            (if k \<in> set (expired_keys ev now (queries_of c)) then None
             else map_of (queries_of c) k))"
proof (cases "search_queries c")
  case None
  with assms have "c' = c" by (simp add: cleanup_expired_entries_def)
  with None show ?thesis by (simp add: queries_of_def expired_keys_def)
next
  case (Some qs)
  have "queries_of c' = delete_keys (expired_keys ev now qs) qs"
    using assms Some
    by (auto simp: cleanup_expired_entries_def with_metadata_def queries_of_def Let_def
        split: if_splits option.splits)
  then show ?thesis
    using Some set_delete_keys[of "expired_keys ev now qs" qs]
    by (simp add: queries_of_simps map_of_delete_keys)
qed

lemma empty_cache_queries: "queries_of (create_empty_cache ev now) = []"
  by (simp add: create_empty_cache_def queries_of_def)

text \<open>What \<open>load_cache\<close> returns for a document: the empty store or a part of the swept dict.\<close>

lemma load_cache_document:
  assumes "cache_file fs = Some f" and "content f = Document c"
  shows "queries_of (fst (load_cache ev now fs)) = [] \<or>
         (\<exists>c1. cleanup_expired_entries ev now c = Inr c1 \<and>
               set (queries_of (fst (load_cache ev now fs))) \<subseteq> set (queries_of c1))"
proof (cases "load_attempt ev now fs f")
  case (Inl e)
  then have "fst (load_cache ev now fs) = create_empty_cache ev now"
    using assms(1) by (rule load_cache_raised[rotated])
  then show ?thesis by (simp add: empty_cache_queries)
next
  case (Inr c2)
  then have l: "fst (load_cache ev now fs) = c2"
    using assms(1) by (simp add: load_cache_def)
  from Inr assms(2) obtain c1 where c1: "cleanup_expired_entries ev now c = Inr c1"
    and e: "enforce_size_limits ev now fs c1 = Inr c2"
    by (auto simp: load_attempt_def split: sum.splits)
  from enforce_result[OF e] c1 l show ?thesis by blast
qed

lemma load_cache_drops_expired:
  assumes "cache_file fs = Some f" and "content f = Document c"
    and "k \<in> set (expired_keys ev now (queries_of c))"
  shows "map_of (queries_of (fst (load_cache ev now fs))) k = None"
  using load_cache_document[OF assms(1,2), of ev now]
proof
  assume "queries_of (fst (load_cache ev now fs)) = []"
  then show ?thesis by simp
next
  assume "\<exists>c1. cleanup_expired_entries ev now c = Inr c1 \<and>
               set (queries_of (fst (load_cache ev now fs))) \<subseteq> set (queries_of c1)"
  then obtain c1 where c1: "cleanup_expired_entries ev now c = Inr c1"
    and sub: "set (queries_of (fst (load_cache ev now fs))) \<subseteq> set (queries_of c1)"
    by blast
  from cleanup_result[OF c1] assms(3) have "map_of (queries_of c1) k = None" by simp
  then have "k \<notin> fst ` set (queries_of c1)" by (simp add: map_of_eq_None_iff)
  with sub have "k \<notin> fst ` set (queries_of (fst (load_cache ev now fs)))" by auto
  then show ?thesis by (simp add: map_of_eq_None_iff)
qed

lemma load_cache_bounded: "queries_len (fst (load_cache ev now fs)) \<le> MAX_CACHE_ENTRIES"
proof (cases "cache_file fs")
  case None
  then show ?thesis
    by (simp add: load_cache_missing queries_len_length empty_cache_queries)
next
  case (Some f)
  show ?thesis
  proof (cases "load_attempt ev now fs f")
    case (Inl e)
    then have "fst (load_cache ev now fs) = create_empty_cache ev now"
      using Some by (rule load_cache_raised[rotated])
    then show ?thesis by (simp add: queries_len_length empty_cache_queries)
  next
    case (Inr c2)
    then have l: "fst (load_cache ev now fs) = c2"
      using Some by (simp add: load_cache_def)
    show ?thesis
    proof (cases "content f")
      case (Document c)
      with Inr obtain c1 where "enforce_size_limits ev now fs c1 = Inr c2"
        by (auto simp: load_attempt_def split: sum.splits)
      from enforce_result[OF this] l show ?thesis by simp
    next
      case NonObject
      with Inr have "c2 = create_empty_cache ev now" by (simp add: load_attempt_def)
      with l show ?thesis by (simp add: queries_len_length empty_cache_queries)
    qed (use Inr in \<open>simp_all add: load_attempt_def\<close>)
  qed
qed

lemma get_cached_results_unfold:
  assumes "load_cache ev now_load fs = (c, fs1)"
  shows "get_cached_results ev now_load now k fs =
     (case map_of (queries_of c) k of
        None \<Rightarrow> (None, fs1)
      | Some e \<Rightarrow>
          if timestamp e \<noteq> [] then
            (case fromisoformat ev (timestamp e) of
               None \<Rightarrow> (None, fs1)
             | Some entry_date \<Rightarrow>
                 if entry_date < now - timedelta_days (expiry_days ev) then
                   (None,
                    snd (save_cache ev now
                           (c\<lparr>search_queries := Some (AList.delete k (queries_of c))\<rparr>) fs1))
                 else (Some (results e), fs1))
          else (Some (results e), fs1))"
  using assms unfolding get_cached_results_def queries_of_def Let_def by simp

lemma load_cache_document_pair:
  assumes "cache_file fs = Some f" and "content f = Document c"
  shows "load_cache ev now fs = (fst (load_cache ev now fs), fs)"
  using load_cache_document_fs[OF assms, of ev now]
  by (metis prod.collapse)

text \<open>
  An entry of the persisted document that is expired when \<open>load_cache\<close> sweeps is
  absent from the loaded dict: the lookup returns \<open>None\<close> and nothing is written.
\<close>

lemma get_expired_leaves_file:
  assumes "cache_file fs = Some f" and "content f = Document c"
    and "(k, e) \<in> set (queries_of c)"
    and "entry_expired ev (now_load - timedelta_days (expiry_days ev)) e"
  shows "get_cached_results ev now_load now k fs = (None, fs)"
proof -
  have "k \<in> set (expired_keys ev now_load (queries_of c))"
    unfolding expired_keys_iff using assms(3,4) by blast
  then have "map_of (queries_of (fst (load_cache ev now_load fs))) k = None"
    by (rule load_cache_drops_expired[OF assms(1,2)])
  then show ?thesis
    using get_cached_results_unfold[OF load_cache_document_pair[OF assms(1,2)],
        where now = now and k = k]
    by simp
qed

text \<open>The part of the expiry claim that holds: an expired entry is never returned.\<close>

lemma get_never_returns_expired:
  assumes "cache_file fs = Some f" and "content f = Document c"
    and "distinct (map fst (queries_of c))"
    and "map_of (queries_of c) k = Some e"
    and "entry_expired ev (now - timedelta_days (expiry_days ev)) e"
  shows "fst (get_cached_results ev now_load now k fs) = None"
proof -
  let ?c' = "fst (load_cache ev now_load fs)"
  note unf = get_cached_results_unfold[OF load_cache_document_pair[OF assms(1,2)],
      where ev = ev and now_load = now_load and now = now and k = k]
  show ?thesis
  proof (cases "map_of (queries_of ?c') k")
    case None
    then show ?thesis using unf by simp
  next
    case (Some e')
    then have mem: "(k, e') \<in> set (queries_of ?c')" by (rule map_of_SomeD)
    from load_cache_document[OF assms(1,2), of ev now_load] mem
    obtain c1 where c1: "cleanup_expired_entries ev now_load c = Inr c1"
      and sub: "set (queries_of ?c') \<subseteq> set (queries_of c1)"
      by auto
    from cleanup_result[OF c1] sub mem have "(k, e') \<in> set (queries_of c)" by blast
    with assms(3) have "map_of (queries_of c) k = Some e'" by simp
    with assms(4) have e': "e' = e" by simp
    from assms(5) show ?thesis
      using unf Some e'
      by (auto simp: entry_expired_def Let_def split: if_splits option.splits)
  qed
qed

text \<open>
  Claim C7 (the code departs from it). The store holds one entry stamped 1 January; it is
  read on 2 March, 60 days later, with an expiry window of 30 days. The entry is expired and
  the lookup returns no payload, but the directory after the call is the directory before
  it: the persisted store still holds the entry. The sweep of \<open>load_cache\<close> works on the
  loaded dict only, and because it has already dropped the key, the purge-and-save branch
  of \<open>get_cached_results\<close> is not reached.
\<close>

theorem get_expired_entry_stays_persisted:
  "map_of (persisted_queries january_store) ''hepatotoxicity_20_5'' = Some january_entry \<and>
   entry_expired table_env (60 * day - timedelta_days (expiry_days table_env)) january_entry \<and>
   get_cached_results table_env (60 * day) (60 * day) ''hepatotoxicity_20_5'' january_store =
     (None, january_store) \<and>
   map_of (persisted_queries
             (snd (get_cached_results table_env (60 * day) (60 * day) ''hepatotoxicity_20_5''
                     january_store)))
     ''hepatotoxicity_20_5'' = Some january_entry"
proof -
  have a: "map_of (persisted_queries january_store) ''hepatotoxicity_20_5'' = Some january_entry"
    by code_simp
  have b: "entry_expired table_env (60 * day - timedelta_days (expiry_days table_env)) january_entry"
    by code_simp
  have c: "get_cached_results table_env (60 * day) (60 * day) ''hepatotoxicity_20_5'' january_store =
     (None, january_store)"
    by code_simp
  from a b c show ?thesis by simp
qed











lemma load_cache_medium:
  "medium (snd (load_cache ev now fs)) = medium fs \<and>
   rename_fault (snd (load_cache ev now fs)) = rename_fault fs"
  by (auto simp: load_cache_def backup_corrupted_cache_def split: option.split sum.split exn.split)

lemma save_query_results_unfold:
  "save_query_results ev now_load now k rs fs =
     save_cache ev now
       ((fst (load_cache ev now_load fs))
          \<lparr>search_queries :=
             Some (AList.update k \<lparr>timestamp = isoformat ev now, results = rs, count = length rs\<rparr>
                     (queries_of (fst (load_cache ev now_load fs))))\<rparr>)
       (snd (load_cache ev now_load fs))"
  unfolding save_query_results_def queries_of_def Let_def
  by (simp add: case_prod_beta)

text \<open>
  What a successful put leaves in the cache file: the dict that \<open>load_cache\<close> returned,
  already cut to the limit, with the new entry stored after the cut.
\<close>

lemma put_persisted_queries:
  assumes "medium fs = Writable" and "rename_fault fs = None"
  shows "fst (save_query_results ev now_load now k rs fs) \<and>
         persisted_queries (snd (save_query_results ev now_load now k rs fs)) =
           AList.update k \<lparr>timestamp = isoformat ev now, results = rs, count = length rs\<rparr>
             (queries_of (fst (load_cache ev now_load fs)))"
  using assms load_cache_medium[of ev now_load fs]
  unfolding save_query_results_unfold
  by (simp add: save_cache_ok persisted_queries_def stamped_def Let_def)

lemma length_update_le: "length (AList.update k v al) \<le> Suc (length al)"
  by (induction al) auto

lemma put_count_bound:
  assumes "medium fs = Writable" and "rename_fault fs = None"
  shows "length (persisted_queries (snd (save_query_results ev now_load now k rs fs)))
         \<le> MAX_CACHE_ENTRIES + 1"
proof -
  have "length (queries_of (fst (load_cache ev now_load fs))) \<le> MAX_CACHE_ENTRIES"
    using load_cache_bounded[of ev now_load fs] by (simp add: queries_len_length)
  then show ?thesis
    using put_persisted_queries[OF assms, of ev now_load now k rs]
      length_update_le[of k "\<lparr>timestamp = isoformat ev now, results = rs, count = length rs\<rparr>"
        "queries_of (fst (load_cache ev now_load fs))"]
    by simp
qed

text \<open>
  Claim C2 (the code departs from it). A store holds 50 entries written on 1 March, the
  configured maximum; on 2 March a result list is saved under a new key. The limits are
  enforced inside \<open>load_cache\<close>, before the new entry is stored, and \<open>save_cache\<close> writes
  what it is given: the persisted store then holds 51 entries. In the same way a store of
  40 entries whose file is larger than 100 MB stays larger after a put: the size test cuts
  the dict to 50 entries, which removes nothing, and the file written has 41 entries and
  123000200 bytes.
\<close>

theorem put_exceeds_limits:
  "length (persisted_queries full_store) = MAX_CACHE_ENTRIES \<and>
   fst (save_query_results table_env (60 * day) (60 * day) ''new_20_5'' [''Ann Lee''] full_store) \<and>
   length (persisted_queries
     (snd (save_query_results table_env (60 * day) (60 * day) ''new_20_5'' [''Ann Lee'']
             full_store))) = MAX_CACHE_ENTRIES + 1 \<and>
   length (persisted_queries
     (snd (save_query_results heavy_env (60 * day) (60 * day) ''new_20_5'' [''Ann Lee'']
             heavy_store))) = 41 \<and>
   persisted_bytes
     (snd (save_query_results heavy_env (60 * day) (60 * day) ''new_20_5'' [''Ann Lee'']
             heavy_store)) = 123000200 \<and>
   MAX_CACHE_SIZE_MB * (1024 * 1024) < 123000200"
proof -
  have a: "length (persisted_queries full_store) = MAX_CACHE_ENTRIES"
    by code_simp
  have b: "fst (save_query_results table_env (60 * day) (60 * day) ''new_20_5'' [''Ann Lee''] full_store)"
    by code_simp
  have c: "length (persisted_queries
     (snd (save_query_results table_env (60 * day) (60 * day) ''new_20_5'' [''Ann Lee'']
             full_store))) = MAX_CACHE_ENTRIES + 1"
    by code_simp
  have d: "length (persisted_queries
     (snd (save_query_results heavy_env (60 * day) (60 * day) ''new_20_5'' [''Ann Lee'']
             heavy_store))) = 41"
    by code_simp
  have e: "persisted_bytes
     (snd (save_query_results heavy_env (60 * day) (60 * day) ''new_20_5'' [''Ann Lee'']
             heavy_store)) = 123000200"
    by code_simp
  have f: "MAX_CACHE_SIZE_MB * (1024 * 1024) < 123000200"
    by (simp add: MAX_CACHE_SIZE_MB_def)
  from a b c d e f show ?thesis by blast
qed

end
